theory Spec2Isabelle
  imports Complex_Main "HOL-Library.Sublist" "HOL-Library.Char_ord" "HOL-Library.List_Lexorder"
    "HOL-Library.Multiset"
begin

section \<open>Token store (auth.js)\<close>

text \<open>
  \<^verbatim>\<open>localStorage\<close> is a map from keys to strings; \<^verbatim>\<open>getItem\<close> answers \<^verbatim>\<open>null\<close>
  (here \<open>None\<close>) for a key that was never stored.
\<close>

type_synonym storage = "string \<rightharpoonup> string"

definition STORAGE_KEY :: string where "STORAGE_KEY = ''hydro_journal_token''"
definition OWNER_KEY :: string where "OWNER_KEY = ''hydro_journal_owner''"
definition REPO_KEY :: string where "REPO_KEY = ''hydro_journal_repo''"

text \<open>\<^verbatim>\<open>localStorage.getItem(k) || d\<close>: \<^verbatim>\<open>null\<close> and the empty string are the falsy results.\<close>

definition getItem_or :: "storage \<Rightarrow> string \<Rightarrow> string \<Rightarrow> string" where
  "getItem_or ls k d = (case ls k of None \<Rightarrow> d | Some v \<Rightarrow> if v = [] then d else v)"

definition getToken :: "storage \<Rightarrow> string" where
  "getToken ls = getItem_or ls STORAGE_KEY []"

definition getOwner :: "storage \<Rightarrow> string" where
  "getOwner ls = getItem_or ls OWNER_KEY []"

definition getRepo :: "storage \<Rightarrow> string" where
  "getRepo ls = getItem_or ls REPO_KEY ''hydro_journal''"

text \<open>\<^verbatim>\<open>!!(a && b)\<close> on strings: \<^verbatim>\<open>a && b\<close> is \<^verbatim>\<open>a\<close> when \<^verbatim>\<open>a\<close> is falsy (empty), else \<^verbatim>\<open>b\<close>.\<close>

definition str_and :: "string \<Rightarrow> string \<Rightarrow> string" where
  "str_and a b = (if a = [] then a else b)"

definition isConfigured :: "storage \<Rightarrow> bool" where
  "isConfigured ls = (str_and (getToken ls) (getOwner ls) \<noteq> [])"

section \<open>Image dimensions (submit.js, compressImage)\<close>

definition MAX_IMAGE_DIMENSION :: nat where "MAX_IMAGE_DIMENSION = 1200"

text \<open>
  \<^verbatim>\<open>Math.round(a / b)\<close> for natural numbers \<open>a\<close> and \<open>b > 0\<close>: the nearest integer, a
  tie going up. In \<open>compressImage\<close> the quotient is at most 1200 and its operands are image
  dimensions, so the double-precision quotient lies on the same side of every half-integer as
  the exact one, and the rounding is the exact one written here.
\<close>

definition Math_round_div :: "nat \<Rightarrow> nat \<Rightarrow> nat" where
  "Math_round_div a b = (2 * a + b) div (2 * b)"

text \<open>The block of \<open>img.onload\<close> that assigns \<^verbatim>\<open>width\<close> and \<^verbatim>\<open>height\<close>.\<close>

definition compressImage_dimensions :: "nat \<Rightarrow> nat \<Rightarrow> nat \<times> nat" where
  "compressImage_dimensions width height =
     (if width > MAX_IMAGE_DIMENSION \<or> height > MAX_IMAGE_DIMENSION then
        (if width > height
         then (MAX_IMAGE_DIMENSION, Math_round_div (height * MAX_IMAGE_DIMENSION) width)
         else (Math_round_div (width * MAX_IMAGE_DIMENSION) height, MAX_IMAGE_DIMENSION))
      else (width, height))"

section \<open>Substring test\<close>

text \<open>\<^verbatim>\<open>s.includes(sub)\<close>, and a regular expression that is a literal text without
  anchors: \<open>sub\<close> occurs in \<open>s\<close> at some position.\<close>

fun str_includes :: "string \<Rightarrow> string \<Rightarrow> bool" where
  "str_includes [] sub = (sub = [])"
| "str_includes (c # cs) sub = (prefix sub (c # cs) \<or> str_includes cs sub)"

section \<open>Offline cache (sw.js)\<close>

record sw_request =
  rq_method :: string
  rq_hostname :: string
  rq_pathname :: string

record sw_response =
  rs_ok :: bool
  rs_status :: nat
  rs_body :: string

text \<open>\<^verbatim>\<open>new Response('Offline', { status: 503 })\<close>\<close>

definition offline_response :: sw_response where
  "offline_response = \<lparr>rs_ok = False, rs_status = 503, rs_body = ''Offline''\<rparr>"

text \<open>
  The cache storage maps a request to the response stored for it; \<open>fetch\<close> either rejects
  (\<open>None\<close>) or resolves with a response.
\<close>

type_synonym sw_cache = "sw_request \<rightharpoonup> sw_response"
type_synonym sw_network = "sw_request \<Rightarrow> sw_response option"

definition cacheFirst :: "sw_network \<Rightarrow> sw_cache \<Rightarrow> sw_request \<Rightarrow> sw_response \<times> sw_cache" where
  "cacheFirst net cache request =
     (case cache request of
        Some cached \<Rightarrow> (cached, cache)
      | None \<Rightarrow>
          (case net request of
             Some response \<Rightarrow>
               (response, if rs_ok response then cache(request \<mapsto> response) else cache)
           | None \<Rightarrow> (offline_response, cache)))"

definition networkFirst :: "sw_network \<Rightarrow> sw_cache \<Rightarrow> sw_request \<Rightarrow> sw_response \<times> sw_cache" where
  "networkFirst net cache request =
     (case net request of
        Some response \<Rightarrow>
          (response, if rs_ok response then cache(request \<mapsto> response) else cache)
      | None \<Rightarrow>
          (case cache request of
             Some cached \<Rightarrow> (cached, cache)
           | None \<Rightarrow> (offline_response, cache)))"

text \<open>
  The fetch listener: \<open>None\<close> when the handler returns without \<^verbatim>\<open>event.respondWith\<close>
  (the browser then performs the request itself), otherwise the response handed to
  \<^verbatim>\<open>respondWith\<close>. The first argument is \<^verbatim>\<open>self.location.hostname\<close>;
  \<^verbatim>\<open>url.pathname.match(/\/icons\//)\<close> holds when the path contains \<^verbatim>\<open>/icons/\<close>.
\<close>

definition fetch_listener ::
  "string \<Rightarrow> sw_network \<Rightarrow> sw_cache \<Rightarrow> sw_request \<Rightarrow> sw_response option \<times> sw_cache" where
  "fetch_listener self_hostname net cache request =
     (if rq_method request \<noteq> ''GET'' then (None, cache)
      else if rq_hostname request = ''api.github.com'' then (None, cache)
      else if rq_hostname request \<noteq> self_hostname \<or> str_includes (rq_pathname request) ''/icons/''
      then (let (r, c) = cacheFirst net cache request in (Some r, c))
      else (let (r, c) = networkFirst net cache request in (Some r, c)))"

section \<open>JavaScript values, errors and strings\<close>

text \<open>
  Values as \<^verbatim>\<open>JSON.parse\<close> and object literals build them. An object is the list of its
  properties in insertion order; numbers are kept abstract (type \<open>'n\<close>). Strings are
  sequences of 8-bit code units.
\<close>

datatype 'n jsval =
    Undefined
  | Null
  | Bool bool
  | Num 'n
  | Str string
  | Arr "'n jsval list"
  | Obj "(string \<times> 'n jsval) list"

datatype js_error =
    Error string
  | TypeError string
  | SyntaxError string
  | DOMException string

fun message :: "js_error \<Rightarrow> string" where
  "message (Error m) = m"
| "message (TypeError m) = m"
| "message (SyntaxError m) = m"
| "message (DOMException m) = m"

text \<open>
  Property read \<^verbatim>\<open>v.k\<close>, for the property names the program reads (\<^verbatim>\<open>object\<close>, \<^verbatim>\<open>sha\<close>,
  \<^verbatim>\<open>tree\<close>, \<^verbatim>\<open>content\<close>, \<^verbatim>\<open>entries\<close>, \<^verbatim>\<open>experiments\<close>, \<^verbatim>\<open>id\<close>; none of them is a
  built-in property of a string, array, number or boolean): reading from \<^verbatim>\<open>undefined\<close> or
  \<^verbatim>\<open>null\<close> throws a \<^verbatim>\<open>TypeError\<close> (its message text is the engine's), a missing
  property is \<^verbatim>\<open>undefined\<close>.
\<close>

definition get_prop :: "'n jsval \<Rightarrow> string \<Rightarrow> js_error + 'n jsval" where
  "get_prop v k =
     (case v of
        Undefined \<Rightarrow> Inl (TypeError (''Cannot read properties of undefined (reading '' @ k @ '')''))
      | Null \<Rightarrow> Inl (TypeError (''Cannot read properties of null (reading '' @ k @ '')''))
      | Obj kvs \<Rightarrow> Inr (case map_of kvs k of Some x \<Rightarrow> x | None \<Rightarrow> Undefined)
      | _ \<Rightarrow> Inr Undefined)"

text \<open>Truthiness of the values the program tests (\<^verbatim>\<open>!existingIndex\<close>, \<^verbatim>\<open>!expData\<close>); a
  number is decided by the platform (\<open>0\<close> and \<open>NaN\<close> are falsy).\<close>

definition truthy :: "('n \<Rightarrow> bool) \<Rightarrow> 'n jsval \<Rightarrow> bool" where
  "truthy num_truthy v =
     (case v of
        Undefined \<Rightarrow> False
      | Null \<Rightarrow> False
      | Bool b \<Rightarrow> b
      | Num n \<Rightarrow> num_truthy n
      | Str s \<Rightarrow> s \<noteq> []
      | _ \<Rightarrow> True)"

text \<open>Writing a property of an object keeps the position of a property that exists.\<close>

definition obj_set :: "string \<Rightarrow> 'n jsval \<Rightarrow> (string \<times> 'n jsval) list \<Rightarrow> (string \<times> 'n jsval) list" where
  "obj_set k v kvs =
     (if k \<in> fst ` set kvs then map (\<lambda>(k', v'). if k' = k then (k', v) else (k', v')) kvs
      else kvs @ [(k, v)])"

subsection \<open>Decimal digits\<close>

text \<open>\<^verbatim>\<open>\d\<close>: the code units \<^verbatim>\<open>0x30\<close> to \<^verbatim>\<open>0x39\<close>.\<close>

definition is_digit :: "char \<Rightarrow> bool" where
  "is_digit c = (48 \<le> (of_char c :: nat) \<and> (of_char c :: nat) \<le> 57)"

definition digit_value :: "char \<Rightarrow> nat" where
  "digit_value c = of_char c - 48"

definition digit_char :: "nat \<Rightarrow> char" where
  "digit_char d = ''0123456789'' ! d"

text \<open>The mathematical integer written by a string of decimal digits.\<close>

definition decimal_value :: "string \<Rightarrow> nat" where
  "decimal_value ds = foldl (\<lambda>n c. 10 * n + digit_value c) 0 ds"

text \<open>The decimal numeral of a natural number, without leading zeros.\<close>

fun decimal :: "nat \<Rightarrow> string" where
  "decimal n = (if n < 10 then [digit_char n] else decimal (n div 10) @ [digit_char (n mod 10)])"

declare decimal.simps [simp del]

text \<open>\<^verbatim>\<open>s.padStart(n, '0')\<close>\<close>

definition padStart0 :: "nat \<Rightarrow> string \<Rightarrow> string" where
  "padStart0 n s = replicate (n - length s) CHR ''0'' @ s"

subsection \<open>Numbers of the sequence computation\<close>

text \<open>
  The numbers that \<open>onSubmit\<close> computes with are doubles that hold a non-negative integer,
  or \<^verbatim>\<open>Infinity\<close>. \<open>round_double\<close> is the double nearest to a natural number (ties to the
  even significand, overflow to \<^verbatim>\<open>Infinity\<close>): every natural number below \<open>2^53\<close> is
  a double, above that 53 significant bits remain.
\<close>

datatype number = Fin nat | Infinity

fun bit_length :: "nat \<Rightarrow> nat" where
  "bit_length n = (if n = 0 then 0 else Suc (bit_length (n div 2)))"

declare bit_length.simps [simp del]

definition round_double :: "nat \<Rightarrow> number" where
  "round_double n =
     (if n < 2 ^ 53 then Fin n
      else
        let e = bit_length n - 53;
            q = n div 2 ^ e;
            r = n mod 2 ^ e;
            q' = (if 2 * r > 2 ^ e \<or> (2 * r = 2 ^ e \<and> odd q) then q + 1 else q)
        in if q' * 2 ^ e \<ge> 2 ^ 1024 then Infinity else Fin (q' * 2 ^ e))"

text \<open>\<^verbatim>\<open>parseInt(ds)\<close> for a non-empty string of decimal digits.\<close>

definition parseInt :: "string \<Rightarrow> number" where
  "parseInt ds = round_double (decimal_value ds)"

text \<open>\<^verbatim>\<open>Math.max(a, b)\<close>\<close>

fun Math_max :: "number \<Rightarrow> number \<Rightarrow> number" where
  "Math_max (Fin a) (Fin b) = Fin (max a b)"
| "Math_max _ _ = Infinity"

text \<open>\<^verbatim>\<open>a + 1\<close>: the exact sum, rounded.\<close>

fun plus_one :: "number \<Rightarrow> number" where
  "plus_one (Fin a) = round_double (a + 1)"
| "plus_one Infinity = Infinity"

text \<open>
  \<^verbatim>\<open>String(x)\<close>: an integer below \<open>2^53\<close> prints as its decimal numeral. From \<open>2^53\<close> on the
  digits are those of the engine's shortest round-trip conversion (exponent notation from
  \<open>10^21\<close>, \<^verbatim>\<open>Infinity\<close>), taken from the platform as \<open>big\<close>.
\<close>

definition String_of_number :: "(number \<Rightarrow> string) \<Rightarrow> number \<Rightarrow> string" where
  "String_of_number big x =
     (case x of
        Fin n \<Rightarrow> if n < 2 ^ 53 then decimal n else big x
      | Infinity \<Rightarrow> big x)"

subsection \<open>Entry filename (submit.js, onSubmit, step 2)\<close>

text \<open>
  \<^verbatim>\<open>f.match(/_(\d+)\.json$/)\<close>: \<open>match_here\<close> tries the pattern at the start of a string
  (an underscore, the longest run of digits, which must not be empty, then \<^verbatim>\<open>.json\<close> and
  the end of the string); \<open>match_seq\<close> tries every start position from the left and answers
  the captured digits of the first match.
\<close>

definition match_here :: "string \<Rightarrow> string option" where
  "match_here s =
     (case s of
        [] \<Rightarrow> None
      | c # rest \<Rightarrow>
          if c = CHR ''_'' \<and> takeWhile is_digit rest \<noteq> [] \<and> dropWhile is_digit rest = ''.json''
          then Some (takeWhile is_digit rest) else None)"

fun match_seq :: "string \<Rightarrow> string option" where
  "match_seq [] = None"
| "match_seq (c # cs) =
     (case match_here (c # cs) of Some ds \<Rightarrow> Some ds | None \<Rightarrow> match_seq cs)"

text \<open>The loop \<^verbatim>\<open>for (const f of existing)\<close> that updates \<^verbatim>\<open>maxSeq\<close>.\<close>

fun max_seq_loop :: "string list \<Rightarrow> number \<Rightarrow> number" where
  "max_seq_loop [] maxSeq = maxSeq"
| "max_seq_loop (f # fs) maxSeq =
     max_seq_loop fs
       (case match_seq f of
          Some ds \<Rightarrow> Math_max maxSeq (parseInt ds)
        | None \<Rightarrow> Math_max maxSeq (Fin 1))"

definition entry_filename :: "(number \<Rightarrow> string) \<Rightarrow> string \<Rightarrow> string list \<Rightarrow> string" where
  "entry_filename big date entries =
     (let existing = filter (prefix date) entries in
      if length existing > 0 then
        let maxSeq = max_seq_loop existing (Fin 0);
            nextSeq = padStart0 2 (String_of_number big (plus_one maxSeq))
        in date @ ''_'' @ nextSeq @ ''.json''
      else date @ ''.json'')"

text \<open>
  The numeric suffix of a filename as the filename rule counts it: the number written by
  the digits between the last underscore and \<^verbatim>\<open>.json\<close>, and 1 for a filename without
  such a suffix.
\<close>

definition suffix_number :: "string \<Rightarrow> nat" where
  "suffix_number f = (case match_seq f of Some ds \<Rightarrow> decimal_value ds | None \<Rightarrow> 1)"

text \<open>The digits engines print for the double \<open>2^53\<close> and the other integers that are
  doubles below \<open>10^21\<close>: the decimal numeral.\<close>

definition String_integer :: "number \<Rightarrow> string" where
  "String_integer x = (case x of Fin n \<Rightarrow> decimal n | Infinity \<Rightarrow> ''Infinity'')"

section \<open>The platform, requests and the state\<close>

record request =
  req_url :: string
  req_method :: string
  req_headers :: "(string \<times> string) list"
  req_body :: "string option"

text \<open>A response: \<^verbatim>\<open>res.ok\<close>, \<^verbatim>\<open>res.status\<close>, and what \<^verbatim>\<open>res.text()\<close> and \<^verbatim>\<open>res.json()\<close>
  resolve to or reject with.\<close>

record 'n response =
  res_ok :: bool
  res_status :: nat
  res_text :: "js_error + string"
  res_json :: "js_error + 'n jsval"

text \<open>
  What the browser provides. \<open>fetch\<close> acts on the world outside the page (type \<open>'w\<close>) and
  rejects (\<open>Inl\<close>) or resolves with a response. \<open>JSON_stringify v n\<close> is
  \<^verbatim>\<open>JSON.stringify(v, null, n)\<close> (\<open>n = 0\<close>: no indentation argument). \<open>ToString\<close> is the
  conversion of a template literal, \<open>Number_truthy\<close> the truthiness of a number,
  \<open>String_big\<close> the digits of a number from \<open>2^53\<close> on. \<open>image_load\<close> answers the width and
  height of a file that loads as an image; \<open>canvas_jpeg\<close> is the part after the comma of
  \<^verbatim>\<open>canvas.toDataURL('image/jpeg', JPEG_QUALITY)\<close> for the image drawn at a width and height.
\<close>

record ('w, 'n, 'f) platform =
  fetch :: "'w \<Rightarrow> request \<Rightarrow> (js_error + 'n response) \<times> 'w"
  JSON_stringify :: "'n jsval \<Rightarrow> nat \<Rightarrow> string"
  JSON_parse :: "string \<Rightarrow> js_error + 'n jsval"
  atob :: "string \<Rightarrow> js_error + string"
  encodeURIComponent :: "string \<Rightarrow> string"
  parseFloat :: "string \<Rightarrow> 'n"
  ToString :: "'n jsval \<Rightarrow> string"
  Number_truthy :: "'n \<Rightarrow> bool"
  String_big :: "number \<Rightarrow> string"
  image_load :: "'f \<Rightarrow> (nat \<times> nat) option"
  canvas_jpeg :: "'f \<Rightarrow> nat \<Rightarrow> nat \<Rightarrow> string"

text \<open>
  The state a run acts on: the world behind \<open>fetch\<close>, the record of every \<open>fetch\<close> made
  with its outcome, in order, the token store, and the page (type \<open>'u\<close>).
\<close>

record ('w, 'n, 'u) state =
  world :: 'w
  calls :: "(request \<times> (js_error + 'n response)) list"
  localStorage :: storage
  ui :: 'u

text \<open>An asynchronous function: from a state to the value it resolves with or the error it
  rejects with, and the state it leaves.\<close>

type_synonym ('w, 'n, 'u, 'a) async = "('w, 'n, 'u) state \<Rightarrow> (js_error + 'a) \<times> ('w, 'n, 'u) state"

definition resolve :: "'a \<Rightarrow> ('w, 'n, 'u, 'a) async" where
  "resolve x = (\<lambda>s. (Inr x, s))"

definition reject :: "js_error \<Rightarrow> ('w, 'n, 'u, 'a) async" where
  "reject e = (\<lambda>s. (Inl e, s))"

definition settle :: "js_error + 'a \<Rightarrow> ('w, 'n, 'u, 'a) async" where
  "settle r = (\<lambda>s. (r, s))"

text \<open>\<open>await_then m f\<close>: run \<open>m\<close>; an error ends the run, a value goes on to \<open>f\<close>.\<close>

definition await_then ::
  "('w, 'n, 'u, 'a) async \<Rightarrow> ('a \<Rightarrow> ('w, 'n, 'u, 'b) async) \<Rightarrow> ('w, 'n, 'u, 'b) async" where
  "await_then m f = (\<lambda>s. case m s of (Inl e, s') \<Rightarrow> (Inl e, s') | (Inr x, s') \<Rightarrow> f x s')"

text \<open>\<^verbatim>\<open>try { m } catch (err) { h err }\<close>\<close>

definition try_catch ::
  "('w, 'n, 'u, 'a) async \<Rightarrow> (js_error \<Rightarrow> ('w, 'n, 'u, 'a) async) \<Rightarrow> ('w, 'n, 'u, 'a) async" where
  "try_catch m h = (\<lambda>s. case m s of (Inl e, s') \<Rightarrow> h e s' | (Inr x, s') \<Rightarrow> (Inr x, s'))"

text \<open>A synchronous change of the page.\<close>

definition on_ui :: "('u \<Rightarrow> 'u) \<Rightarrow> ('w, 'n, 'u, unit) async" where
  "on_ui g = (\<lambda>s. (Inr (), s\<lparr>ui := g (ui s)\<rparr>))"

definition do_fetch :: "('w, 'n, 'f) platform \<Rightarrow> request \<Rightarrow> ('w, 'n, 'u, 'n response) async" where
  "do_fetch P rq =
     (\<lambda>s. let (r, w') = fetch P (world s) rq
          in (r, s\<lparr>world := w', calls := calls s @ [(rq, r)]\<rparr>))"

section \<open>API client (github-api.js)\<close>

definition API :: string where "API = ''https://api.github.com''"

definition headers :: "string \<Rightarrow> (string \<times> string) list" where
  "headers token =
     [(''Authorization'', ''Bearer '' @ token),
      (''Accept'', ''application/vnd.github+json''),
      (''Content-Type'', ''application/json'')]"

text \<open>The options a caller passes to \<open>apiRequest\<close>; no caller passes \<^verbatim>\<open>opts.headers\<close>, and
  \<open>fetch\<close> uses \<^verbatim>\<open>GET\<close> when no method is given.\<close>

record opts =
  opt_method :: "string option"
  opt_body :: "string option"

definition no_opts :: opts where
  "no_opts = \<lparr>opt_method = None, opt_body = None\<rparr>"

definition api_request :: "string \<Rightarrow> string \<Rightarrow> opts \<Rightarrow> request" where
  "api_request token endpoint os =
     \<lparr>req_url = API @ endpoint,
      req_method = (case opt_method os of None \<Rightarrow> ''GET'' | Some m \<Rightarrow> m),
      req_headers = headers token,
      req_body = opt_body os\<rparr>"

definition apiRequest ::
  "('w, 'n, 'f) platform \<Rightarrow> string \<Rightarrow> string \<Rightarrow> opts \<Rightarrow> ('w, 'n, 'u, 'n jsval) async" where
  "apiRequest P token endpoint os =
     await_then (do_fetch P (api_request token endpoint os)) (\<lambda>res.
       if \<not> res_ok res then
         await_then (settle (res_text res)) (\<lambda>body.
           reject (Error (''GitHub API '' @ decimal (res_status res) @ '': '' @ body)))
       else settle (res_json res))"

text \<open>Template-literal conversion \<^verbatim>\<open>${v}\<close>: a string is itself.\<close>

definition template :: "('w, 'n, 'f) platform \<Rightarrow> 'n jsval \<Rightarrow> string" where
  "template P v = (case v of Str s \<Rightarrow> s | _ \<Rightarrow> ToString P v)"

definition getRef ::
  "('w, 'n, 'f) platform \<Rightarrow> string \<Rightarrow> string \<Rightarrow> string \<Rightarrow> string \<Rightarrow> ('w, 'n, 'u, 'n jsval) async" where
  "getRef P token owner repo branch =
     await_then
       (apiRequest P token (''/repos/'' @ owner @ ''/'' @ repo @ ''/git/ref/heads/'' @ branch) no_opts)
       (\<lambda>data. await_then (settle (get_prop data ''object'')) (\<lambda>obj. settle (get_prop obj ''sha'')))"

definition getCommit ::
  "('w, 'n, 'f) platform \<Rightarrow> string \<Rightarrow> string \<Rightarrow> string \<Rightarrow> 'n jsval \<Rightarrow> ('w, 'n, 'u, 'n jsval) async" where
  "getCommit P token owner repo commitSha =
     apiRequest P token
       (''/repos/'' @ owner @ ''/'' @ repo @ ''/git/commits/'' @ template P commitSha) no_opts"

definition createBlob ::
  "('w, 'n, 'f) platform \<Rightarrow> string \<Rightarrow> string \<Rightarrow> string \<Rightarrow> string \<Rightarrow> string option
    \<Rightarrow> ('w, 'n, 'u, 'n jsval) async" where
  "createBlob P token owner repo content encoding =
     apiRequest P token (''/repos/'' @ owner @ ''/'' @ repo @ ''/git/blobs'')
       \<lparr>opt_method = Some ''POST'',
        opt_body = Some (JSON_stringify P
          (Obj [(''content'', Str content),
                (''encoding'', Str (case encoding of None \<Rightarrow> ''utf-8'' | Some e \<Rightarrow> e))]) 0)\<rparr>"

definition createTree ::
  "('w, 'n, 'f) platform \<Rightarrow> string \<Rightarrow> string \<Rightarrow> string \<Rightarrow> 'n jsval \<Rightarrow> 'n jsval list
    \<Rightarrow> ('w, 'n, 'u, 'n jsval) async" where
  "createTree P token owner repo baseTreeSha treeEntries =
     apiRequest P token (''/repos/'' @ owner @ ''/'' @ repo @ ''/git/trees'')
       \<lparr>opt_method = Some ''POST'',
        opt_body = Some (JSON_stringify P
          (Obj [(''base_tree'', baseTreeSha), (''tree'', Arr treeEntries)]) 0)\<rparr>"

definition createCommitObj ::
  "('w, 'n, 'f) platform \<Rightarrow> string \<Rightarrow> string \<Rightarrow> string \<Rightarrow> string \<Rightarrow> 'n jsval \<Rightarrow> 'n jsval
    \<Rightarrow> ('w, 'n, 'u, 'n jsval) async" where
  "createCommitObj P token owner repo msg treeSha parentSha =
     apiRequest P token (''/repos/'' @ owner @ ''/'' @ repo @ ''/git/commits'')
       \<lparr>opt_method = Some ''POST'',
        opt_body = Some (JSON_stringify P
          (Obj [(''message'', Str msg), (''tree'', treeSha), (''parents'', Arr [parentSha])]) 0)\<rparr>"

definition updateRef ::
  "('w, 'n, 'f) platform \<Rightarrow> string \<Rightarrow> string \<Rightarrow> string \<Rightarrow> string \<Rightarrow> 'n jsval
    \<Rightarrow> ('w, 'n, 'u, 'n jsval) async" where
  "updateRef P token owner repo branch commitSha =
     apiRequest P token (''/repos/'' @ owner @ ''/'' @ repo @ ''/git/refs/heads/'' @ branch)
       \<lparr>opt_method = Some ''PATCH'',
        opt_body = Some (JSON_stringify P (Obj [(''sha'', commitSha)]) 0)\<rparr>"

text \<open>\<^verbatim>\<open>data.content.replace(/\n/g, '')\<close>: only a string has \<^verbatim>\<open>replace\<close>.\<close>

definition replace_newlines :: "'n jsval \<Rightarrow> js_error + string" where
  "replace_newlines v =
     (case v of
        Str s \<Rightarrow> Inr (filter (\<lambda>c. c \<noteq> CHR 0x0A) s)
      | Undefined \<Rightarrow> Inl (TypeError ''Cannot read properties of undefined (reading replace)'')
      | Null \<Rightarrow> Inl (TypeError ''Cannot read properties of null (reading replace)'')
      | _ \<Rightarrow> Inl (TypeError ''data.content.replace is not a function''))"

definition getFileContent ::
  "('w, 'n, 'f) platform \<Rightarrow> string \<Rightarrow> string \<Rightarrow> string \<Rightarrow> string \<Rightarrow> string
    \<Rightarrow> ('w, 'n, 'u, 'n jsval) async" where
  "getFileContent P token owner repo path branch =
     try_catch
       (await_then
          (apiRequest P token
             (''/repos/'' @ owner @ ''/'' @ repo @ ''/contents/'' @ encodeURIComponent P path
                @ ''?ref='' @ branch) no_opts)
          (\<lambda>data. await_then (settle (get_prop data ''content'')) (\<lambda>c.
             await_then (settle (replace_newlines c)) (\<lambda>stripped.
               await_then (settle (atob P stripped)) (\<lambda>decoded.
                 settle (JSON_parse P decoded))))))
       (\<lambda>err. if str_includes (message err) ''404'' then resolve Null else reject err)"

text \<open>An element of \<^verbatim>\<open>files\<close>: \<^verbatim>\<open>{ path, content, encoding }\<close>, the encoding optional.\<close>

record commit_file =
  path :: string
  content :: string
  encoding :: "string option"

text \<open>\<^verbatim>\<open>file.encoding || 'utf-8'\<close>\<close>

definition encoding_or_utf8 :: "commit_file \<Rightarrow> string" where
  "encoding_or_utf8 f =
     (case encoding f of None \<Rightarrow> ''utf-8'' | Some e \<Rightarrow> if e = [] then ''utf-8'' else e)"

definition tree_entry :: "string \<Rightarrow> 'n jsval \<Rightarrow> 'n jsval" where
  "tree_entry p sha =
     Obj [(''path'', Str p), (''mode'', Str ''100644''), (''type'', Str ''blob''), (''sha'', sha)]"

text \<open>The loop \<^verbatim>\<open>for (const file of files)\<close> of \<open>commitFiles\<close>, from the entries pushed so far.\<close>

fun create_blobs ::
  "('w, 'n, 'f) platform \<Rightarrow> string \<Rightarrow> string \<Rightarrow> string \<Rightarrow> commit_file list \<Rightarrow> 'n jsval list
    \<Rightarrow> ('w, 'n, 'u, 'n jsval list) async" where
  "create_blobs P token owner repo [] treeEntries = resolve treeEntries"
| "create_blobs P token owner repo (f # fs) treeEntries =
     await_then (createBlob P token owner repo (content f) (Some (encoding_or_utf8 f))) (\<lambda>blob.
       await_then (settle (get_prop blob ''sha'')) (\<lambda>sha.
         create_blobs P token owner repo fs (treeEntries @ [tree_entry (path f) sha])))"

text \<open>\<^verbatim>\<open>onProgress || (() => {})\<close>\<close>

definition progress_of :: "(string \<Rightarrow> string \<Rightarrow> 'u \<Rightarrow> 'u) option \<Rightarrow> string \<Rightarrow> string \<Rightarrow> 'u \<Rightarrow> 'u" where
  "progress_of onProgress = (case onProgress of None \<Rightarrow> (\<lambda>step msg u. u) | Some g \<Rightarrow> g)"

definition commitFiles ::
  "('w, 'n, 'f) platform \<Rightarrow> string \<Rightarrow> string \<Rightarrow> string \<Rightarrow> string \<Rightarrow> commit_file list
    \<Rightarrow> (string \<Rightarrow> string \<Rightarrow> 'u \<Rightarrow> 'u) option \<Rightarrow> ('w, 'n, 'u, 'n jsval) async" where
  "commitFiles P token owner repo msg files onProgress =
     (let progress = progress_of onProgress in
      await_then (on_ui (progress ''ref'' ''Getting current branch...'')) (\<lambda>_.
      await_then (getRef P token owner repo ''main'') (\<lambda>headSha.
      await_then (getCommit P token owner repo headSha) (\<lambda>headCommit.
      await_then (settle (get_prop headCommit ''tree'')) (\<lambda>tree.
      await_then (settle (get_prop tree ''sha'')) (\<lambda>baseTreeSha.
      await_then (on_ui (progress ''blobs''
          (''Creating '' @ decimal (length files) @ '' file(s)...''))) (\<lambda>_.
      await_then (create_blobs P token owner repo files []) (\<lambda>treeEntries.
      await_then (on_ui (progress ''tree'' ''Building commit tree...'')) (\<lambda>_.
      await_then (createTree P token owner repo baseTreeSha treeEntries) (\<lambda>newTree.
      await_then (on_ui (progress ''commit'' ''Creating commit...'')) (\<lambda>_.
      await_then (settle (get_prop newTree ''sha'')) (\<lambda>treeSha.
      await_then (createCommitObj P token owner repo msg treeSha headSha) (\<lambda>newCommit.
      await_then (on_ui (progress ''update'' ''Updating branch...'')) (\<lambda>_.
      await_then (settle (get_prop newCommit ''sha'')) (\<lambda>commitSha.
      await_then (updateRef P token owner repo ''main'' commitSha) (\<lambda>_.
      await_then (on_ui (progress ''done'' ''Committed successfully!'')) (\<lambda>_.
      resolve newCommit)))))))))))))))))"

section \<open>Submission view (submit.js)\<close>

text \<open>
  The elements the page shows in \<^verbatim>\<open>#submit-progress\<close> and \<^verbatim>\<open>#new-exp-status\<close>: a
  \<^verbatim>\<open>div\<close> of class \<^verbatim>\<open>step c\<close> with its text, or a \<^verbatim>\<open>div\<close> of class
  \<^verbatim>\<open>alert alert-k\<close> with its text.
\<close>

datatype element = Step string string | Alert string string

record 'f submit_page =
  experiment_select :: string
  entry_date :: string
  entry_time :: string
  entry_notes :: string
  measurement_ph :: string
  measurement_ec :: string
  measurement_temp :: string
  selectedFiles :: "'f list"
  submit_progress :: "element list"
  submit_disabled :: bool
  submit_text :: string

definition compressImage :: "('w, 'n, 'f) platform \<Rightarrow> 'f \<Rightarrow> js_error + string" where
  "compressImage P f =
     (case image_load P f of
        None \<Rightarrow> Inl (Error ''Failed to load image'')
      | Some (width, height) \<Rightarrow>
          (case compressImage_dimensions width height of
             (w, h) \<Rightarrow> Inr (canvas_jpeg P f w h)))"

definition addProgress :: "string \<Rightarrow> string \<Rightarrow> element list \<Rightarrow> element list" where
  "addProgress msg cls el =
     map (\<lambda>x. case x of Step c t \<Rightarrow> if c = ''active'' then Step ''done'' t else x | _ \<Rightarrow> x) el
       @ [Step cls msg]"

definition add_progress :: "string \<Rightarrow> string \<Rightarrow> 'f submit_page \<Rightarrow> 'f submit_page" where
  "add_progress msg cls u = u\<lparr>submit_progress := addProgress msg cls (submit_progress u)\<rparr>"

definition showError :: "string \<Rightarrow> 'f submit_page \<Rightarrow> 'f submit_page" where
  "showError msg u = u\<lparr>submit_progress := [Alert ''error'' msg]\<rparr>"

definition resetForm :: "'f submit_page \<Rightarrow> 'f submit_page" where
  "resetForm u =
     u\<lparr>entry_notes := [], measurement_ph := [], measurement_ec := [],
       measurement_temp := [], selectedFiles := []\<rparr>"

text \<open>Step 1, the loop over \<^verbatim>\<open>selectedFiles\<close> from index \<open>i\<close> on; \<open>n\<close> is
  \<^verbatim>\<open>selectedFiles.length\<close>.\<close>

fun compress_photos ::
  "('w, 'n, 'f) platform \<Rightarrow> string \<Rightarrow> string \<Rightarrow> nat \<Rightarrow> 'f list \<Rightarrow> nat \<Rightarrow> commit_file list
    \<Rightarrow> string list \<Rightarrow> ('w, 'n, 'f submit_page, commit_file list \<times> string list) async" where
  "compress_photos P experimentId date n [] i files imagePaths = resolve (files, imagePaths)"
| "compress_photos P experimentId date n (f # fs) i files imagePaths =
     (let seq = padStart0 3 (decimal (i + 1));
          p = ''images/'' @ experimentId @ ''/'' @ date @ ''_'' @ seq @ ''.jpg''
      in await_then (settle (compressImage P f)) (\<lambda>base64.
         await_then (on_ui (add_progress
             (''Compressed photo '' @ decimal (i + 1) @ ''/'' @ decimal n) ''active'')) (\<lambda>_.
           compress_photos P experimentId date n fs (i + 1)
             (files @ [\<lparr>path = p, content = base64, encoding = Some ''base64''\<rparr>])
             (imagePaths @ [p]))))"

text \<open>
  \<^verbatim>\<open>existingIndex.entries.filter(f => f.startsWith(date))\<close> runs \<^verbatim>\<open>startsWith\<close> on every
  element: the value must be an array of strings, anything else throws a \<^verbatim>\<open>TypeError\<close>.
\<close>

definition str_of :: "'n jsval \<Rightarrow> string option" where
  "str_of v = (case v of Str s \<Rightarrow> Some s | _ \<Rightarrow> None)"

definition string_elements :: "'n jsval \<Rightarrow> js_error + string list" where
  "string_elements v =
     (case v of
        Arr xs \<Rightarrow>
          (case those (map str_of xs) of
             Some ss \<Rightarrow> Inr ss
           | None \<Rightarrow> Inl (TypeError ''f.startsWith is not a function''))
      | Undefined \<Rightarrow> Inl (TypeError ''Cannot read properties of undefined (reading filter)'')
      | Null \<Rightarrow> Inl (TypeError ''Cannot read properties of null (reading filter)'')
      | _ \<Rightarrow> Inl (TypeError ''existingIndex.entries.filter is not a function''))"

text \<open>The object after its array property \<open>k\<close> was changed in place.\<close>

definition with_array :: "string \<Rightarrow> 'n jsval list \<Rightarrow> 'n jsval \<Rightarrow> 'n jsval" where
  "with_array k xs v = (case v of Obj kvs \<Rightarrow> Obj (obj_set k (Arr xs) kvs) | _ \<Rightarrow> v)"

definition measurement :: "('w, 'n, 'f) platform \<Rightarrow> string \<Rightarrow> string \<Rightarrow> (string \<times> 'n jsval) list" where
  "measurement P k v = (if v \<noteq> [] then [(k, Num (parseFloat P v))] else [])"

definition index_path :: "string \<Rightarrow> string" where
  "index_path experimentId = ''data/experiments/'' @ experimentId @ ''/entries/index.json''"

definition entry_path :: "string \<Rightarrow> string \<Rightarrow> string" where
  "entry_path experimentId entryFilename =
     ''data/experiments/'' @ experimentId @ ''/entries/'' @ entryFilename"

text \<open>\<^verbatim>\<open>if (!existingIndex) existingIndex = { entries: [] }\<close>\<close>

definition existing_index :: "('w, 'n, 'f) platform \<Rightarrow> 'n jsval \<Rightarrow> 'n jsval" where
  "existing_index P fetched =
     (if \<not> truthy (Number_truthy P) fetched then Obj [(''entries'', Arr [])] else fetched)"

text \<open>Step 3: the entry document.\<close>

definition entry_document :: "('w, 'n, 'f) platform \<Rightarrow> 'f submit_page \<Rightarrow> string list \<Rightarrow> 'n jsval" where
  "entry_document P u imagePaths =
     Obj [(''date'', Str (entry_date u)), (''time'', Str (entry_time u)),
          (''notes'', Str (entry_notes u)),
          (''images'', Arr (map Str imagePaths)),
          (''measurements'', Obj (measurement P ''ph'' (measurement_ph u)
             @ measurement P ''ec'' (measurement_ec u)
             @ measurement P ''waterTemp'' (measurement_temp u)))]"

text \<open>
  Steps 2 to 4 of \<open>onSubmit\<close>, from the value \<open>getFileContent\<close> resolved with to the list
  handed to \<open>commitFiles\<close>: the index or its empty default, the entry filename, the entry
  document pushed to \<^verbatim>\<open>files\<close>, the index with the filename pushed and the list sorted,
  pushed to \<^verbatim>\<open>files\<close>.
\<close>

definition submission_files ::
  "('w, 'n, 'f) platform \<Rightarrow> 'f submit_page \<Rightarrow> commit_file list \<Rightarrow> string list \<Rightarrow> 'n jsval
    \<Rightarrow> js_error + commit_file list" where
  "submission_files P u files imagePaths fetched =
     (let experimentId = experiment_select u;
          existingIndex = existing_index P fetched
      in case get_prop existingIndex ''entries'' of
           Inl e \<Rightarrow> Inl e
         | Inr entriesV \<Rightarrow>
             (case string_elements entriesV of
                Inl e \<Rightarrow> Inl e
              | Inr entries \<Rightarrow>
                  (let entryFilename = entry_filename (String_big P) (entry_date u) entries;
                       files1 = files @ [\<lparr>path = entry_path experimentId entryFilename,
                           content = JSON_stringify P (entry_document P u imagePaths) 2,
                           encoding = None\<rparr>];
                       written = with_array ''entries''
                                   (map Str (sort (entries @ [entryFilename]))) existingIndex
                   in Inr (files1 @ [\<lparr>path = index_path experimentId,
                                      content = JSON_stringify P written 2, encoding = None\<rparr>]))))"

text \<open>The \<^verbatim>\<open>try\<close> block of \<open>onSubmit\<close>.\<close>

definition onSubmit_try ::
  "('w, 'n, 'f) platform \<Rightarrow> 'f submit_page \<Rightarrow> string \<Rightarrow> string \<Rightarrow> string
    \<Rightarrow> ('w, 'n, 'f submit_page, unit) async" where
  "onSubmit_try P u0 token owner repo =
     (let experimentId = experiment_select u0;
          date = entry_date u0;
          n = length (selectedFiles u0)
      in
      await_then
        (if n > 0 then
           await_then (on_ui (add_progress ''Compressing photos...'' ''active'')) (\<lambda>_.
             compress_photos P experimentId date n (selectedFiles u0) 0 [] [])
         else resolve ([], []))
        (\<lambda>(files, imagePaths).
      await_then (on_ui (add_progress ''Checking existing entries...'' ''active'')) (\<lambda>_.
      await_then (getFileContent P token owner repo (index_path experimentId) ''main'') (\<lambda>fetched.
      await_then (settle (submission_files P u0 files imagePaths fetched)) (\<lambda>batch.
      await_then
        (commitFiles P token owner repo (''journal: '' @ experimentId @ '' entry '' @ date) batch
           (Some (\<lambda>step msg. add_progress msg ''active''))) (\<lambda>_.
      await_then (on_ui (add_progress ''Entry submitted successfully!'' ''done'')) (\<lambda>_.
      on_ui resetForm)))))))"

text \<open>
  \<open>onSubmit\<close>: the three validations, the disabled form, the \<^verbatim>\<open>try\<close> block with its
  \<^verbatim>\<open>catch\<close>, and the \<^verbatim>\<open>finally\<close> block (the handler of \<^verbatim>\<open>catch\<close> does not throw, so it is
  what runs next in every case).
\<close>

definition onSubmit :: "('w, 'n, 'f) platform \<Rightarrow> ('w, 'n, 'f submit_page, unit) async" where
  "onSubmit P s =
     (if \<not> isConfigured (localStorage s) then
        on_ui (showError ''Please configure your GitHub token in Settings first.'') s
      else if experiment_select (ui s) = [] then
        on_ui (showError ''Please select an experiment.'') s
      else if entry_date (ui s) = [] then
        on_ui (showError ''Please enter a date.'') s
      else
        await_then
          (on_ui (\<lambda>u. u\<lparr>submit_disabled := True, submit_text := ''Submitting...'',
                          submit_progress := []\<rparr>)) (\<lambda>_.
        await_then
          (try_catch
             (onSubmit_try P (ui s) (getToken (localStorage s)) (getOwner (localStorage s))
                (getRepo (localStorage s)))
             (\<lambda>err. on_ui (add_progress (''Error: '' @ message err) ''error''))) (\<lambda>_.
        on_ui (\<lambda>u. u\<lparr>submit_disabled := False, submit_text := ''Submit Entry''\<rparr>))) s)"

section \<open>New experiment (site.js, createNewExperiment)\<close>

record 'n site_page =
  exp_id :: string
  exp_name :: string
  exp_description :: string
  exp_start :: string
  new_exp_status :: "element list"
  experiments :: "'n jsval list"
  refresh_scheduled :: bool

text \<open>\<^verbatim>\<open>s.trim()\<close>: the white space among the 8-bit code units.\<close>

definition is_space :: "char \<Rightarrow> bool" where
  "is_space c = ((of_char c :: nat) \<in> {9, 10, 11, 12, 13, 32, 160})"

definition trim :: "string \<Rightarrow> string" where
  "trim s = rev (dropWhile is_space (rev (dropWhile is_space s)))"

text \<open>\<^verbatim>\<open>expData.experiments.some(...)\<close> needs an array.\<close>

definition array_elements :: "'n jsval \<Rightarrow> js_error + 'n jsval list" where
  "array_elements v =
     (case v of
        Arr xs \<Rightarrow> Inr xs
      | Undefined \<Rightarrow> Inl (TypeError ''Cannot read properties of undefined (reading some)'')
      | Null \<Rightarrow> Inl (TypeError ''Cannot read properties of null (reading some)'')
      | _ \<Rightarrow> Inl (TypeError ''expData.experiments.some is not a function''))"

text \<open>\<^verbatim>\<open>es.some(e => e.id === id)\<close>: from the left, stopping at the first match.\<close>

fun some_id :: "'n jsval list \<Rightarrow> string \<Rightarrow> js_error + bool" where
  "some_id [] i = Inr False"
| "some_id (e # es) i =
     (case get_prop e ''id'' of
        Inl err \<Rightarrow> Inl err
      | Inr v \<Rightarrow> if v = Str i then Inr True else some_id es i)"

text \<open>\<^verbatim>\<open>if (!expData) expData = { experiments: [] }\<close>\<close>

definition experiments_data :: "('w, 'n, 'f) platform \<Rightarrow> 'n jsval \<Rightarrow> 'n jsval" where
  "experiments_data P fetched =
     (if \<not> truthy (Number_truthy P) fetched then Obj [(''experiments'', Arr [])] else fetched)"

definition new_experiment :: "string \<Rightarrow> string \<Rightarrow> string \<Rightarrow> string \<Rightarrow> 'n jsval" where
  "new_experiment i name description startDate =
     Obj [(''id'', Str i), (''name'', Str name), (''description'', Str description),
          (''startDate'', Str startDate), (''status'', Str ''active'')]"

definition new_experiment_meta :: "string \<Rightarrow> string \<Rightarrow> string \<Rightarrow> string \<Rightarrow> 'n jsval" where
  "new_experiment_meta i name description startDate =
     Obj [(''id'', Str i), (''name'', Str name), (''description'', Str description),
          (''startDate'', Str startDate), (''status'', Str ''active''), (''system'', Str []),
          (''plants'', Arr []), (''nutrients'', Str [])]"

text \<open>
  From the value \<open>getFileContent\<close> resolved with to the list handed to \<open>commitFiles\<close>:
  \<open>None\<close> when an experiment with the id exists (the function returns without a commit).
\<close>

definition new_experiment_files ::
  "('w, 'n, 'f) platform \<Rightarrow> string \<Rightarrow> string \<Rightarrow> string \<Rightarrow> string \<Rightarrow> 'n jsval
    \<Rightarrow> js_error + commit_file list option" where
  "new_experiment_files P i name description startDate fetched =
     (let expData = experiments_data P fetched in
      case get_prop expData ''experiments'' of
        Inl e \<Rightarrow> Inl e
      | Inr exps \<Rightarrow>
          (case array_elements exps of
             Inl e \<Rightarrow> Inl e
           | Inr es \<Rightarrow>
               (case some_id es i of
                  Inl e \<Rightarrow> Inl e
                | Inr True \<Rightarrow> Inr None
                | Inr False \<Rightarrow>
                    Inr (Some
                      [\<lparr>path = ''docs/data/experiments.json'',
                        content = JSON_stringify P
                          (with_array ''experiments''
                             (es @ [new_experiment i name description startDate]) expData) 2,
                        encoding = None\<rparr>,
                       \<lparr>path = ''docs/data/experiments/'' @ i @ ''/meta.json'',
                        content = JSON_stringify P
                          (new_experiment_meta i name description startDate) 2,
                        encoding = None\<rparr>,
                       \<lparr>path = ''docs/data/experiments/'' @ i @ ''/entries/index.json'',
                        content = JSON_stringify P (Obj [(''entries'', Arr [])]) 2,
                        encoding = None\<rparr>]))))"

definition status_html :: "string \<Rightarrow> string \<Rightarrow> 'n site_page \<Rightarrow> 'n site_page" where
  "status_html k msg u = u\<lparr>new_exp_status := [Alert k msg]\<rparr>"

definition createNewExperiment :: "('w, 'n, 'f) platform \<Rightarrow> ('w, 'n, 'n site_page, unit) async" where
  "createNewExperiment P s =
     (let i = trim (exp_id (ui s));
          name = trim (exp_name (ui s));
          description = trim (exp_description (ui s));
          startDate = exp_start (ui s);
          token = getToken (localStorage s);
          owner = getOwner (localStorage s);
          repo = getRepo (localStorage s)
      in if i = [] \<or> name = [] \<or> startDate = [] then resolve () s
         else
           await_then (on_ui (status_html ''success'' ''Creating experiment...'')) (\<lambda>_.
           try_catch
             (await_then
                (getFileContent P token owner repo ''docs/data/experiments.json'' ''main'')
                (\<lambda>fetched.
              await_then (settle (new_experiment_files P i name description startDate fetched))
                (\<lambda>files.
                   case files of
                     None \<Rightarrow>
                       on_ui (status_html ''error'' ''An experiment with this ID already exists.'')
                   | Some batch \<Rightarrow>
                       await_then
                         (commitFiles P token owner repo (''experiment: create '' @ i) batch None)
                         (\<lambda>_.
                       on_ui (\<lambda>u. u\<lparr>new_exp_status := [Alert ''success'' ''Experiment created!''],
                                      experiments := experiments u
                                        @ [new_experiment i name description startDate],
                                      refresh_scheduled := True\<rparr>)))))
             (\<lambda>err. on_ui (status_html ''error'' (''Error: '' @ message err)))) s)"

section \<open>The remote tree\<close>

text \<open>
  Modelled from the spec: the tree the hosted API creates from a base tree and a list of
  entries (the API itself is no part of the repository): a mapping from path to content in
  which the listed paths hold the new blobs and unlisted paths are inherited unchanged.
\<close>

type_synonym tree = "string \<rightharpoonup> string"

definition apply_files :: "commit_file list \<Rightarrow> tree \<Rightarrow> tree" where
  "apply_files files t = fold (\<lambda>f t'. t'(path f \<mapsto> content f)) files t"

text \<open>The entry documents of an experiment in a tree: the files of its \<^verbatim>\<open>entries\<close>
  directory other than the index.\<close>

definition entry_documents :: "tree \<Rightarrow> string \<Rightarrow> string set" where
  "entry_documents t experimentId =
     {name. name \<noteq> ''index.json'' \<and> t (entry_path experimentId name) \<noteq> None}"

section \<open>Commit sequence: the contract and runs\<close>

text \<open>What \<open>apiRequest\<close> makes of the outcome of its \<open>fetch\<close>: the rejection, the error built
  from the status and body of a response that is not ok, or the parsed body.\<close>

definition api_result :: "js_error + 'n response \<Rightarrow> js_error + 'n jsval" where
  "api_result fr =
     (case fr of
        Inl e \<Rightarrow> Inl e
      | Inr res \<Rightarrow>
          if \<not> res_ok res then
            (case res_text res of
               Inl e \<Rightarrow> Inl e
             | Inr body \<Rightarrow> Inl (Error (''GitHub API '' @ decimal (res_status res) @ '': '' @ body)))
          else res_json res)"

text \<open>The request \<open>createBlob\<close> sends for an element of \<^verbatim>\<open>files\<close>.\<close>

definition blob_request :: "('w, 'n, 'f) platform \<Rightarrow> string \<Rightarrow> string \<Rightarrow> string \<Rightarrow> commit_file \<Rightarrow> request" where
  "blob_request P token owner repo f =
     api_request token (''/repos/'' @ owner @ ''/'' @ repo @ ''/git/blobs'')
       \<lparr>opt_method = Some ''POST'',
        opt_body = Some (JSON_stringify P
          (Obj [(''content'', Str (content f)), (''encoding'', Str (encoding_or_utf8 f))]) 0)\<rparr>"

text \<open>The commit sequence as the contract words it: resolve the branch head; read the head
  commit; one blob per file; one tree on the base tree listing the blobs; one commit on the
  new tree with the head as its only parent; the update of the branch ref.\<close>

definition six_step_requests ::
  "('w, 'n, 'f) platform \<Rightarrow> string \<Rightarrow> string \<Rightarrow> string \<Rightarrow> string \<Rightarrow> commit_file list
    \<Rightarrow> 'n jsval \<Rightarrow> 'n jsval \<Rightarrow> 'n jsval list \<Rightarrow> 'n jsval \<Rightarrow> 'n jsval \<Rightarrow> request list" where
  "six_step_requests P token owner repo msg files headSha baseTreeSha shas treeSha commitSha =
     [api_request token (''/repos/'' @ owner @ ''/'' @ repo @ ''/git/ref/heads/main'') no_opts,
      api_request token
        (''/repos/'' @ owner @ ''/'' @ repo @ ''/git/commits/'' @ template P headSha) no_opts]
     @ map (blob_request P token owner repo) files
     @ [api_request token (''/repos/'' @ owner @ ''/'' @ repo @ ''/git/trees'')
          \<lparr>opt_method = Some ''POST'',
           opt_body = Some (JSON_stringify P
             (Obj [(''base_tree'', baseTreeSha),
                   (''tree'', Arr (map2 tree_entry (map path files) shas))]) 0)\<rparr>,
        api_request token (''/repos/'' @ owner @ ''/'' @ repo @ ''/git/commits'')
          \<lparr>opt_method = Some ''POST'',
           opt_body = Some (JSON_stringify P
             (Obj [(''message'', Str msg), (''tree'', treeSha), (''parents'', Arr [headSha])]) 0)\<rparr>,
        api_request token (''/repos/'' @ owner @ ''/'' @ repo @ ''/git/refs/heads/main'')
          \<lparr>opt_method = Some ''PATCH'',
           opt_body = Some (JSON_stringify P (Obj [(''sha'', commitSha)]) 0)\<rparr>]"

text \<open>\<open>sends k m\<close>: a run of \<open>m\<close> makes at most \<open>k\<close> requests, none of them a \<^verbatim>\<open>PATCH\<close>.\<close>

definition sends :: "nat \<Rightarrow> ('w, 'n, 'u, 'a) async \<Rightarrow> bool" where
  "sends k m \<longleftrightarrow>
     (\<forall>s r s'. m s = (r, s') \<longrightarrow>
        (\<exists>T. calls s' = calls s @ T \<and> length T \<le> k
           \<and> (\<forall>c\<in>set T. req_method (fst c) \<noteq> ''PATCH'')))"

text \<open>The steps of \<open>commitFiles\<close> before the update of the ref.\<close>

definition commit_prepare ::
  "('w, 'n, 'f) platform \<Rightarrow> string \<Rightarrow> string \<Rightarrow> string \<Rightarrow> string \<Rightarrow> commit_file list
    \<Rightarrow> (string \<Rightarrow> string \<Rightarrow> 'u \<Rightarrow> 'u) \<Rightarrow> ('w, 'n, 'u, 'n jsval \<times> 'n jsval) async" where
  "commit_prepare P token owner repo msg files progress =
      await_then (on_ui (progress ''ref'' ''Getting current branch...'')) (\<lambda>_.
      await_then (getRef P token owner repo ''main'') (\<lambda>headSha.
      await_then (getCommit P token owner repo headSha) (\<lambda>headCommit.
      await_then (settle (get_prop headCommit ''tree'')) (\<lambda>tree.
      await_then (settle (get_prop tree ''sha'')) (\<lambda>baseTreeSha.
      await_then (on_ui (progress ''blobs''
          (''Creating '' @ decimal (length files) @ '' file(s)...''))) (\<lambda>_.
      await_then (create_blobs P token owner repo files []) (\<lambda>treeEntries.
      await_then (on_ui (progress ''tree'' ''Building commit tree...'')) (\<lambda>_.
      await_then (createTree P token owner repo baseTreeSha treeEntries) (\<lambda>newTree.
      await_then (on_ui (progress ''commit'' ''Creating commit...'')) (\<lambda>_.
      await_then (settle (get_prop newTree ''sha'')) (\<lambda>treeSha.
      await_then (createCommitObj P token owner repo msg treeSha headSha) (\<lambda>newCommit.
      await_then (on_ui (progress ''update'' ''Updating branch...'')) (\<lambda>_.
      await_then (settle (get_prop newCommit ''sha'')) (\<lambda>commitSha.
      resolve (newCommit, commitSha)))))))))))))))"

text \<open>No request of the list updates a ref.\<close>

definition no_patch :: "(request \<times> (js_error + 'n response)) list \<Rightarrow> bool" where
  "no_patch T = (\<forall>c\<in>set T. req_method (fst c) \<noteq> ''PATCH'')"

text \<open>Every request of the list was answered with a value.\<close>

definition all_ok :: "(request \<times> (js_error + 'n response)) list \<Rightarrow> bool" where
  "all_ok T = (\<forall>c\<in>set T. \<exists>v. api_result (snd c) = Inr v)"

text \<open>The outcomes of a commit sequence over \<open>n\<close> files that rejected with \<open>r = Inl e\<close> or resolved.\<close>

definition commit_outcome ::
  "nat \<Rightarrow> (request \<times> (js_error + 'n response)) list \<Rightarrow> js_error + 'a \<Rightarrow> bool" where
  "commit_outcome n T r =
     (case r of
        Inl e \<Rightarrow>
          (no_patch T \<and> length T \<le> n + 4)
          \<or> (\<exists>T0 rq fr. T = T0 @ [(rq, fr)] \<and> req_method rq = ''PATCH'' \<and> api_result fr = Inl e
                \<and> no_patch T0 \<and> all_ok T0 \<and> length T0 = n + 4)
      | Inr x \<Rightarrow>
          (\<exists>T0 rq fr upd. T = T0 @ [(rq, fr)] \<and> req_method rq = ''PATCH''
                \<and> api_result fr = Inr upd
                \<and> no_patch T0 \<and> all_ok T0 \<and> length T0 = n + 4))"

section \<open>Runs of the submission\<close>

text \<open>What \<open>getFileContent\<close> makes of the outcome of its \<open>fetch\<close>: the decoded and parsed
  content, \<^verbatim>\<open>null\<close> for an error whose message contains \<^verbatim>\<open>404\<close>, or the error.\<close>

definition file_content_result :: "('w, 'n, 'f) platform \<Rightarrow> js_error + 'n response \<Rightarrow> js_error + 'n jsval" where
  "file_content_result P fr =
     (let decoded =
        (case api_result fr of
           Inl e \<Rightarrow> Inl e
         | Inr data \<Rightarrow>
             (case get_prop data ''content'' of
                Inl e \<Rightarrow> Inl e
              | Inr c \<Rightarrow>
                  (case replace_newlines c of
                     Inl e \<Rightarrow> Inl e
                   | Inr stripped \<Rightarrow>
                       (case atob P stripped of
                          Inl e \<Rightarrow> Inl e
                        | Inr d \<Rightarrow> JSON_parse P d))))
      in case decoded of
           Inl err \<Rightarrow> if str_includes (message err) ''404'' then Inr Null else Inl err
         | Inr v \<Rightarrow> Inr v)"

text \<open>The request \<open>getFileContent\<close> sends for a path on \<^verbatim>\<open>main\<close>.\<close>

definition contents_request :: "('w, 'n, 'f) platform \<Rightarrow> string \<Rightarrow> string \<Rightarrow> string \<Rightarrow> string \<Rightarrow> request" where
  "contents_request P token owner repo p =
     api_request token (''/repos/'' @ owner @ ''/'' @ repo @ ''/contents/''
        @ encodeURIComponent P p @ ''?ref=main'') no_opts"

text \<open>Steps 1 to 4 of the \<^verbatim>\<open>try\<close> block of \<open>onSubmit\<close>: everything before \<open>commitFiles\<close>.\<close>

definition submit_prepare ::
  "('w, 'n, 'f) platform \<Rightarrow> 'f submit_page \<Rightarrow> string \<Rightarrow> string \<Rightarrow> string
    \<Rightarrow> ('w, 'n, 'f submit_page, commit_file list) async" where
  "submit_prepare P u0 token owner repo =
      await_then
        (if length (selectedFiles u0) > 0 then
           await_then (on_ui (add_progress ''Compressing photos...'' ''active'')) (\<lambda>_.
             compress_photos P (experiment_select u0) (entry_date u0) (length (selectedFiles u0))
               (selectedFiles u0) 0 [] [])
         else resolve ([], []))
        (\<lambda>(files, imagePaths).
      await_then (on_ui (add_progress ''Checking existing entries...'' ''active'')) (\<lambda>_.
      await_then (getFileContent P token owner repo (index_path (experiment_select u0)) ''main'')
        (\<lambda>fetched.
      settle (submission_files P u0 files imagePaths fetched))))"

text \<open>The outcomes of the \<^verbatim>\<open>try\<close> block of \<open>onSubmit\<close> with \<open>k\<close> photos: the read of the index,
  then the commit sequence over \<open>k + 2\<close> files.\<close>

definition submit_outcome ::
  "nat \<Rightarrow> (request \<times> (js_error + 'n response)) list \<Rightarrow> js_error + 'a \<Rightarrow> bool" where
  "submit_outcome k T r =
     (case r of
        Inl e \<Rightarrow>
          (no_patch T \<and> length T \<le> k + 7)
          \<or> (\<exists>T0 rq fr. T = T0 @ [(rq, fr)] \<and> req_method rq = ''PATCH'' \<and> api_result fr = Inl e
                \<and> no_patch T0 \<and> all_ok (tl T0) \<and> length T0 = k + 7)
      | Inr x \<Rightarrow>
          (\<exists>T0 rq fr upd. T = T0 @ [(rq, fr)] \<and> req_method rq = ''PATCH''
                \<and> api_result fr = Inr upd
                \<and> no_patch T0 \<and> all_ok (tl T0) \<and> length T0 = k + 7))"

section \<open>A sample platform\<close>

text \<open>A platform for examples: a serializer, a server that answers a fixed number of requests
  (each with one fixed object) and then fails, a parser that answers one fixed document, a
  page and a state.\<close>

fun show_json :: "nat jsval \<Rightarrow> string" where
  "show_json Undefined = ''undefined''"
| "show_json Null = ''null''"
| "show_json (Bool b) = (if b then ''true'' else ''false'')"
| "show_json (Num n) = decimal n"
| "show_json (Str s) = ''<'' @ s @ ''>''"
| "show_json (Arr xs) = ''['' @ concat (map (\<lambda>x. show_json x @ '','') xs) @ '']''"
| "show_json (Obj kvs) = ''{'' @ concat (map (\<lambda>kv. fst kv @ '':'' @ show_json (snd kv) @ '','') kvs) @ ''}''"

definition sample_json :: "nat jsval" where
  "sample_json = Obj [(''sha'', Str ''abc''), (''object'', Obj [(''sha'', Str ''abc'')]),
      (''tree'', Obj [(''sha'', Str ''def'')]), (''content'', Str ''e30='')]"

definition sample_document :: "nat jsval" where
  "sample_document =
     Obj [(''entries'', Arr [Str ''2024-01-02.json'', Str ''2024-01-01.json'']),
          (''experiments'', Arr [Obj [(''id'', Str ''basil''), (''name'', Str ''Basil'')]])]"

definition sample_fetch :: "nat \<Rightarrow> request \<Rightarrow> (js_error + nat response) \<times> nat" where
  "sample_fetch budget rq =
     (if budget = 0 then (Inl (TypeError ''Failed to fetch''), 0)
      else (Inr \<lparr>res_ok = True, res_status = 200, res_text = Inr [],
                 res_json = Inr sample_json\<rparr>, budget - 1))"

definition sample_platform :: "(nat, nat, nat \<times> nat) platform" where
  "sample_platform =
     \<lparr>fetch = sample_fetch, JSON_stringify = (\<lambda>v n. show_json v),
      JSON_parse = (\<lambda>s. Inr sample_document),
      atob = Inr, encodeURIComponent = id, parseFloat = length, ToString = show_json,
      Number_truthy = (\<lambda>n. n \<noteq> 0), String_big = String_integer, image_load = Some,
      canvas_jpeg = (\<lambda>f w h. ''/9j/'' @ decimal w @ ''x'' @ decimal h)\<rparr>"

definition sample_page :: "(nat \<times> nat) submit_page" where
  "sample_page =
     \<lparr>experiment_select = ''basil'', entry_date = ''2024-01-01'', entry_time = ''08:00'',
      entry_notes = ''ok'', measurement_ph = ''6'', measurement_ec = [], measurement_temp = [],
      selectedFiles = [(4000, 3000)], submit_progress = [], submit_disabled = False,
      submit_text = ''Submit Entry''\<rparr>"

definition sample_state :: "nat \<Rightarrow> 'u \<Rightarrow> (nat, nat, 'u) state" where
  "sample_state budget u =
     \<lparr>world = budget, calls = [], localStorage = [STORAGE_KEY \<mapsto> ''ghp_x'', OWNER_KEY \<mapsto> ''alice''],
      ui = u\<rparr>"


section \<open>Token store: properties\<close>

text \<open>
  C10: \<open>isConfigured\<close> is true exactly when a non-empty token and a non-empty owner are
  stored; the stored repository name plays no part in it, and \<open>getRepo\<close> answers
  \<^verbatim>\<open>hydro_journal\<close> when no repository name is stored.
\<close>

theorem isConfigured_iff:
  "(isConfigured ls \<longleftrightarrow>
      (\<exists>t. ls STORAGE_KEY = Some t \<and> t \<noteq> []) \<and> (\<exists>ow. ls OWNER_KEY = Some ow \<and> ow \<noteq> []))
   \<and> (isConfigured ls \<longleftrightarrow> getToken ls \<noteq> [] \<and> getOwner ls \<noteq> [])
   \<and> isConfigured (ls(REPO_KEY := r)) = isConfigured ls
   \<and> (ls REPO_KEY = None \<longrightarrow> getRepo ls = ''hydro_journal'')"
  by (auto simp: isConfigured_def str_and_def getToken_def getOwner_def getRepo_def
      getItem_or_def STORAGE_KEY_def OWNER_KEY_def REPO_KEY_def split: option.splits)

theorem isConfigured_iff_witness:
  "isConfigured [STORAGE_KEY \<mapsto> ''ghp_x'', OWNER_KEY \<mapsto> ''alice'']
   \<and> [STORAGE_KEY \<mapsto> ''ghp_x'', OWNER_KEY \<mapsto> ''alice''] REPO_KEY = None
   \<and> getRepo [STORAGE_KEY \<mapsto> ''ghp_x'', OWNER_KEY \<mapsto> ''alice''] = ''hydro_journal''
   \<and> \<not> isConfigured [STORAGE_KEY \<mapsto> ''ghp_x'', REPO_KEY \<mapsto> ''r'']"
  using isConfigured_iff [of "[STORAGE_KEY \<mapsto> ''ghp_x'', OWNER_KEY \<mapsto> ''alice'']"]
    isConfigured_iff [of "[STORAGE_KEY \<mapsto> ''ghp_x'', REPO_KEY \<mapsto> ''r'']"]
  by (simp add: STORAGE_KEY_def OWNER_KEY_def REPO_KEY_def)

section \<open>Image dimensions: properties\<close>

lemma Math_round_div_floor:
  assumes "0 < b"
  shows "int (Math_round_div a b) = \<lfloor>real a / real b + 1 / 2\<rfloor>"
proof -
  have "real a / real b + 1 / 2 = real (2 * a + b) / real (2 * b)"
    using assms by (simp add: field_simps)
  then show ?thesis
    by (simp only: Math_round_div_def floor_divide_of_nat_eq)
qed

lemma Math_round_div_le:
  assumes "a \<le> m * b" and "0 < b"
  shows "Math_round_div a b \<le> m"
proof -
  have "2 * a + b < (m + 1) * (2 * b)"
    using assms by (simp add: algebra_simps)
  then have "(2 * a + b) div (2 * b) < m + 1"
    using assms(2) by (simp add: div_less_iff_less_mult)
  then show ?thesis
    by (simp add: Math_round_div_def)
qed

text \<open>
  C8: the computed width and height never exceed 1200. An image with both dimensions at
  most 1200 keeps them; otherwise the larger dimension becomes 1200 and the other one is
  the exact quotient \<open>other * 1200 / larger\<close> rounded to the nearest integer (a tie going
  up, as \<^verbatim>\<open>Math.round\<close> does).
\<close>

theorem compressImage_dimensions_spec:
  "(case compressImage_dimensions w h of (w', h') \<Rightarrow>
      max w' h' \<le> 1200
      \<and> (w \<le> 1200 \<and> h \<le> 1200 \<longrightarrow> w' = w \<and> h' = h)
      \<and> (\<not> (w \<le> 1200 \<and> h \<le> 1200) \<longrightarrow>
           max w' h' = 1200
           \<and> (if w > h
              then w' = 1200 \<and> int h' = \<lfloor>real h * 1200 / real w + 1 / 2\<rfloor>
              else h' = 1200 \<and> int w' = \<lfloor>real w * 1200 / real h + 1 / 2\<rfloor>)))"
proof (cases "w \<le> 1200 \<and> h \<le> 1200")
  case True
  then show ?thesis
    by (simp add: compressImage_dimensions_def MAX_IMAGE_DIMENSION_def)
next
  case False
  show ?thesis
  proof (cases "w > h")
    case True
    then have pos: "0 < w" by simp
    have le: "Math_round_div (h * 1200) w \<le> 1200"
      using True pos by (intro Math_round_div_le) simp_all
    have fl: "int (Math_round_div (h * 1200) w) = \<lfloor>real h * 1200 / real w + 1 / 2\<rfloor>"
      using Math_round_div_floor [OF pos, of "h * 1200"] by simp
    from False True le fl show ?thesis
      by (auto simp: compressImage_dimensions_def MAX_IMAGE_DIMENSION_def)
  next
    case hw: False
    with False have pos: "0 < h" by linarith
    have le: "Math_round_div (w * 1200) h \<le> 1200"
      using hw pos by (intro Math_round_div_le) simp_all
    have fl: "int (Math_round_div (w * 1200) h) = \<lfloor>real w * 1200 / real h + 1 / 2\<rfloor>"
      using Math_round_div_floor [OF pos, of "w * 1200"] by simp
    from False hw le fl show ?thesis
      by (auto simp: compressImage_dimensions_def MAX_IMAGE_DIMENSION_def)
  qed
qed

theorem compressImage_dimensions_spec_witness:
  "compressImage_dimensions 4000 3000 = (1200, 900)
   \<and> compressImage_dimensions 1000 2001 = (600, 1200)
   \<and> compressImage_dimensions 800 600 = (800, 600)
   \<and> int 900 = \<lfloor>real 3000 * 1200 / real 4000 + 1 / 2\<rfloor>
   \<and> int 600 = \<lfloor>real 1000 * 1200 / real 2001 + 1 / 2\<rfloor>"
  using compressImage_dimensions_spec [of 4000 3000] compressImage_dimensions_spec [of 1000 2001]
    compressImage_dimensions_spec [of 800 600]
  by (simp add: compressImage_dimensions_def MAX_IMAGE_DIMENSION_def Math_round_div_def)

section \<open>Offline cache: properties\<close>

text \<open>
  C7, as stated: the service worker answers only same-origin requests. It fails for a
  \<^verbatim>\<open>GET\<close> request to another host (a CDN), which is answered cache-first; here the
  network is down and nothing is cached, so the answer is the synthetic 503 response.
\<close>

theorem fetch_listener_cross_origin_answered:
  "rq_hostname \<lparr>rq_method = ''GET'', rq_hostname = ''cdn.jsdelivr.net'',
       rq_pathname = ''/npm/chart.js''\<rparr> \<noteq> ''behzadk.github.io''
   \<and> fst (fetch_listener ''behzadk.github.io'' Map.empty Map.empty
       \<lparr>rq_method = ''GET'', rq_hostname = ''cdn.jsdelivr.net'',
        rq_pathname = ''/npm/chart.js''\<rparr>) = Some offline_response"
  by (simp add: fetch_listener_def cacheFirst_def)

text \<open>
  C7, amended: the service worker answers exactly the \<^verbatim>\<open>GET\<close> requests whose host is not
  \<^verbatim>\<open>api.github.com\<close> (so non-\<^verbatim>\<open>GET\<close> requests and requests to \<^verbatim>\<open>api.github.com\<close> are
  never answered, and leave the cache as it was); same-origin requests outside
  \<^verbatim>\<open>/icons/\<close> are served network-first, all other answered requests cache-first; and
  whenever the network fetch of an answered request fails, the answer is the cached
  response if there is one and the synthetic 503 \<^verbatim>\<open>Offline\<close> response otherwise.
\<close>

theorem fetch_listener_spec:
  "(fst (fetch_listener self net cache rq) = None \<longleftrightarrow>
      rq_method rq \<noteq> ''GET'' \<or> rq_hostname rq = ''api.github.com'')
   \<and> (fst (fetch_listener self net cache rq) = None \<longrightarrow>
        snd (fetch_listener self net cache rq) = cache)
   \<and> (rq_method rq = ''GET'' \<and> rq_hostname rq \<noteq> ''api.github.com'' \<longrightarrow>
        fetch_listener self net cache rq =
          (if rq_hostname rq = self \<and> \<not> str_includes (rq_pathname rq) ''/icons/''
           then map_prod Some id (networkFirst net cache rq)
           else map_prod Some id (cacheFirst net cache rq)))
   \<and> (rq_method rq = ''GET'' \<and> rq_hostname rq \<noteq> ''api.github.com'' \<and> net rq = None \<longrightarrow>
        fetch_listener self net cache rq =
          (Some (case cache rq of Some cached \<Rightarrow> cached | None \<Rightarrow> offline_response), cache))"
  by (auto simp: fetch_listener_def networkFirst_def cacheFirst_def
      split: option.splits prod.splits)

theorem fetch_listener_spec_witness:
  "fetch_listener ''behzadk.github.io'' Map.empty
     [\<lparr>rq_method = ''GET'', rq_hostname = ''behzadk.github.io'', rq_pathname = ''/app.html''\<rparr>
        \<mapsto> \<lparr>rs_ok = True, rs_status = 200, rs_body = ''<html>''\<rparr>]
     \<lparr>rq_method = ''GET'', rq_hostname = ''behzadk.github.io'', rq_pathname = ''/app.html''\<rparr>
   = (Some \<lparr>rs_ok = True, rs_status = 200, rs_body = ''<html>''\<rparr>,
      [\<lparr>rq_method = ''GET'', rq_hostname = ''behzadk.github.io'', rq_pathname = ''/app.html''\<rparr>
        \<mapsto> \<lparr>rs_ok = True, rs_status = 200, rs_body = ''<html>''\<rparr>])
   \<and> fetch_listener ''behzadk.github.io'' Map.empty Map.empty
     \<lparr>rq_method = ''GET'', rq_hostname = ''behzadk.github.io'', rq_pathname = ''/app.html''\<rparr>
   = (Some offline_response, Map.empty)
   \<and> fetch_listener ''behzadk.github.io'' Map.empty Map.empty
     \<lparr>rq_method = ''POST'', rq_hostname = ''behzadk.github.io'', rq_pathname = ''/app.html''\<rparr>
   = (None, Map.empty)"
  using fetch_listener_spec [of "''behzadk.github.io''" Map.empty
      "[\<lparr>rq_method = ''GET'', rq_hostname = ''behzadk.github.io'', rq_pathname = ''/app.html''\<rparr>
        \<mapsto> \<lparr>rs_ok = True, rs_status = 200, rs_body = ''<html>''\<rparr>]"
      "\<lparr>rq_method = ''GET'', rq_hostname = ''behzadk.github.io'', rq_pathname = ''/app.html''\<rparr>"]
    fetch_listener_spec [of "''behzadk.github.io''" Map.empty Map.empty
      "\<lparr>rq_method = ''GET'', rq_hostname = ''behzadk.github.io'', rq_pathname = ''/app.html''\<rparr>"]
    fetch_listener_spec [of "''behzadk.github.io''" Map.empty Map.empty
      "\<lparr>rq_method = ''POST'', rq_hostname = ''behzadk.github.io'', rq_pathname = ''/app.html''\<rparr>"]
  by (simp add: fetch_listener_def networkFirst_def cacheFirst_def)

section \<open>Entry filename: properties\<close>

lemma digit_char_props:
  assumes "d < 10"
  shows "is_digit (digit_char d)" and "digit_value (digit_char d) = d"
proof -
  from assms have "d \<in> {0, 1, 2, 3, 4, 5, 6, 7, 8, 9}" by auto
  then show "is_digit (digit_char d)" and "digit_value (digit_char d) = d"
    by (auto simp: is_digit_def digit_char_def digit_value_def)
qed

lemma decimal_value_snoc: "decimal_value (ds @ [c]) = 10 * decimal_value ds + digit_value c"
  by (simp add: decimal_value_def)

lemma decimal_digits: "\<forall>c\<in>set (decimal n). is_digit c"
  by (induction n rule: decimal.induct) (subst decimal.simps, auto simp: digit_char_props)

lemma decimal_nonempty: "decimal n \<noteq> []"
  by (subst decimal.simps) simp

lemma decimal_value_decimal: "decimal_value (decimal n) = n"
proof (induction n rule: decimal.induct)
  case (1 n)
  show ?case
  proof (cases "n < 10")
    case True
    then show ?thesis
      by (subst decimal.simps) (simp add: decimal_value_def digit_char_props)
  next
    case False
    with 1 have "decimal_value (decimal (n div 10)) = n div 10" by simp
    with False show ?thesis
      by (subst decimal.simps) (simp add: decimal_value_snoc digit_char_props)
  qed
qed

lemma decimal_value_zeros: "decimal_value (replicate k CHR ''0'' @ ds) = decimal_value ds"
proof -
  have "foldl (\<lambda>n c. 10 * n + digit_value c) 0 (replicate k CHR ''0'') = 0"
    by (induction k) (simp_all add: digit_value_def)
  then show ?thesis by (simp add: decimal_value_def)
qed


lemma padStart0_props:
  "decimal_value (padStart0 k ds) = decimal_value ds"
  "k \<le> length (padStart0 k ds)"
  "(\<forall>c\<in>set ds. is_digit c) \<Longrightarrow> \<forall>c\<in>set (padStart0 k ds). is_digit c"
  "ds \<noteq> [] \<Longrightarrow> padStart0 k ds \<noteq> []"
  by (auto simp: padStart0_def decimal_value_zeros is_digit_def)

lemma length_dropWhile_append:
  "\<not> P y \<Longrightarrow> Suc (length ys) \<le> length (dropWhile P (xs @ y # ys))"
  by (induction xs) auto

lemma match_here_underscore:
  assumes "D \<noteq> []" and "\<forall>c\<in>set D. is_digit c"
  shows "match_here (CHR ''_'' # D @ ''.json'') = Some D"
proof -
  have nd: "\<not> is_digit CHR ''.''" by (simp add: is_digit_def)
  have "takeWhile is_digit (D @ ''.json'') = D"
    using assms(2) nd by (simp add: takeWhile_append2)
  moreover have "dropWhile is_digit (D @ ''.json'') = ''.json''"
    using assms(2) nd by (simp add: dropWhile_append2)
  ultimately show ?thesis using assms(1) by (simp add: match_here_def)
qed

lemma match_here_before:
  "match_here (c # X @ CHR ''_'' # D @ ''.json'') = None"
proof -
  have nd: "\<not> is_digit CHR ''_''" by (simp add: is_digit_def)
  have "Suc (length (D @ ''.json'')) \<le> length (dropWhile is_digit (X @ CHR ''_'' # D @ ''.json''))"
    using nd by (rule length_dropWhile_append)
  then have "dropWhile is_digit (X @ CHR ''_'' # D @ ''.json'') \<noteq> ''.json''"
    by auto
  then show ?thesis by (simp add: match_here_def)
qed

lemma match_seq_suffixed:
  assumes "D \<noteq> []" and "\<forall>c\<in>set D. is_digit c"
  shows "match_seq (X @ CHR ''_'' # D @ ''.json'') = Some D"
proof (induction X)
  case Nil
  show ?case using match_here_underscore [OF assms] by simp
next
  case (Cons c X)
  then show ?case using match_here_before [of c X D] by simp
qed

lemma round_double_exact: "n < 2 ^ 53 \<Longrightarrow> round_double n = Fin n"
  by (simp add: round_double_def)

lemma max_seq_loop_exact:
  assumes "\<forall>f\<in>set fs. suffix_number f < 2 ^ 53" and "a < 2 ^ 53"
  shows "max_seq_loop fs (Fin a) = Fin (Max (insert a (suffix_number ` set fs)))"
  using assms
proof (induction fs arbitrary: a)
  case Nil
  then show ?case by simp
next
  case (Cons f fs)
  let ?v = "suffix_number f"
  from Cons.prems have v: "?v < 2 ^ 53" by simp
  have step: "(case match_seq f of Some ds \<Rightarrow> Math_max (Fin a) (parseInt ds)
               | None \<Rightarrow> Math_max (Fin a) (Fin 1)) = Fin (max a ?v)"
    using v by (auto simp: suffix_number_def parseInt_def round_double_exact split: option.splits)
  have "max_seq_loop (f # fs) (Fin a) = max_seq_loop fs (Fin (max a ?v))"
    by (simp add: step)
  also have "\<dots> = Fin (Max (insert (max a ?v) (suffix_number ` set fs)))"
    using Cons.prems v by (intro Cons.IH) auto
  also have "Max (insert (max a ?v) (suffix_number ` set fs))
      = Max (insert a (suffix_number ` set (f # fs)))"
  proof -
    have "Max (insert a (insert ?v (suffix_number ` set fs)))
        = max a (Max (insert ?v (suffix_number ` set fs)))"
      by (rule Max_insert) auto
    moreover have "Max (insert (max a ?v) (suffix_number ` set fs)) = max a (Max (insert ?v (suffix_number ` set fs)))"
      by (cases "set fs = {}") (simp_all add: max.assoc)
    ultimately show ?thesis by simp
  qed
  finally show ?case .
qed

lemmas filename_eval =
  entry_filename_def match_here_def is_digit_def parseInt_def decimal_value_def digit_value_def
  round_double_def String_of_number_def decimal.simps digit_char_def padStart0_def
  bit_length.simps String_integer_def suffix_number_def

text \<open>
  C3, as stated: the chosen filename is never one of the index. It fails when the largest
  suffix is \<open>2^53\<close>: \<^verbatim>\<open>maxSeq + 1\<close> is computed in double precision and is \<open>2^53\<close>
  again, so the filename chosen is the one the index already holds.
\<close>

theorem entry_filename_collision:
  "entry_filename String_integer ''2024-01-01'' [''2024-01-01_9007199254740992.json'']
     \<in> set [''2024-01-01_9007199254740992.json'']"
  by (simp add: filename_eval)

text \<open>
  C3, amended: provided every numeric suffix among the filenames of the index that start
  with the date is below \<open>2^53 - 1\<close> (so that the next number is computed exactly): if no
  filename of the index starts with the date, the filename is \<^verbatim>\<open><date>.json\<close>; otherwise
  it is \<^verbatim>\<open><date>_<NN>.json\<close>, where \<open>NN\<close> is the decimal numeral, padded with zeros to
  at least two digits, of one more than the largest numeric suffix among those filenames
  (a filename without suffix counting as 1); and the filename is none of the index.
\<close>

theorem entry_filename_spec:
  assumes safe: "\<forall>f\<in>set entries. prefix date f \<longrightarrow> suffix_number f < 2 ^ 53 - 1"
  shows "(if \<not> (\<exists>f\<in>set entries. prefix date f)
          then entry_filename big date entries = date @ ''.json''
          else \<exists>NN. entry_filename big date entries = date @ ''_'' @ NN @ ''.json''
                 \<and> (\<forall>c\<in>set NN. is_digit c) \<and> 2 \<le> length NN
                 \<and> NN = padStart0 2 (decimal (decimal_value NN))
                 \<and> decimal_value NN = Max (suffix_number ` {f \<in> set entries. prefix date f}) + 1)
         \<and> entry_filename big date entries \<notin> set entries"
proof (cases "\<exists>f\<in>set entries. prefix date f")
  case False
  then have none: "filter (prefix date) entries = []"
    by (auto simp: filter_empty_conv)
  then have name: "entry_filename big date entries = date @ ''.json''"
    by (simp add: entry_filename_def)
  have "prefix date (date @ ''.json'')" by simp
  with False have "date @ ''.json'' \<notin> set entries" by blast
  with False name show ?thesis by simp
next
  case True
  let ?existing = "filter (prefix date) entries"
  let ?S = "suffix_number ` {f \<in> set entries. prefix date f}"
  let ?M = "Max ?S"
  let ?NN = "padStart0 2 (decimal (?M + 1))"
  from True have ne: "?existing \<noteq> []" by (auto simp: filter_empty_conv)
  have S: "?S = suffix_number ` set ?existing" by auto
  have fin: "finite ?S" and nonempty: "?S \<noteq> {}" using True by auto
  have bound: "\<forall>v\<in>?S. v < 2 ^ 53 - 1" using safe by auto
  then have M: "?M < 2 ^ 53 - 1" using fin nonempty by simp
  have weaken: "\<And>x::nat. x < 2 ^ 53 - 1 \<Longrightarrow> x < 2 ^ 53" by simp
  have "\<forall>f\<in>set ?existing. suffix_number f < 2 ^ 53"
    using safe weaken by auto
  then have "max_seq_loop ?existing (Fin 0) = Fin (Max (insert 0 (suffix_number ` set ?existing)))"
    by (rule max_seq_loop_exact) simp
  also have "Max (insert 0 (suffix_number ` set ?existing)) = ?M"
    using fin nonempty unfolding S [symmetric] by (simp add: max_def)
  finally have loop: "max_seq_loop ?existing (Fin 0) = Fin ?M" .
  have "plus_one (Fin ?M) = Fin (?M + 1)"
    using M by (simp add: round_double_exact)
  moreover have "String_of_number big (Fin (?M + 1)) = decimal (?M + 1)"
    using M by (simp add: String_of_number_def)
  ultimately have name: "entry_filename big date entries = date @ ''_'' @ ?NN @ ''.json''"
    using ne loop by (simp add: entry_filename_def Let_def)
  have dig: "\<forall>c\<in>set ?NN. is_digit c"
    by (intro padStart0_props(3) decimal_digits)
  have len: "2 \<le> length ?NN" by (rule padStart0_props(2))
  have val: "decimal_value ?NN = ?M + 1"
    by (simp add: padStart0_props(1) decimal_value_decimal)
  have nonnil: "?NN \<noteq> []" by (intro padStart0_props(4) decimal_nonempty)
  have fresh: "date @ ''_'' @ ?NN @ ''.json'' \<notin> set entries"
  proof
    assume mem: "date @ ''_'' @ ?NN @ ''.json'' \<in> set entries"
    have "match_seq (date @ CHR ''_'' # ?NN @ ''.json'') = Some ?NN"
      using nonnil dig by (rule match_seq_suffixed)
    then have "suffix_number (date @ ''_'' @ ?NN @ ''.json'') = ?M + 1"
      using val by (simp add: suffix_number_def)
    moreover have "suffix_number (date @ ''_'' @ ?NN @ ''.json'') \<in> ?S"
      using mem by (intro imageI) simp
    ultimately have "?M + 1 \<le> ?M" using fin by (metis Max_ge)
    then show False by simp
  qed
  from True name dig len val fresh show ?thesis by (simp add: val)
qed


theorem entry_filename_spec_witness:
  "suffix_number ''2024-01-01.json'' < 2 ^ 53 - 1
   \<and> \<not> prefix ''2024-01-01'' ''2024-01-02_07.json''
   \<and> entry_filename String_integer ''2024-01-01'' [''2024-01-01.json'', ''2024-01-02_07.json'']
       = ''2024-01-01_02.json''
   \<and> entry_filename String_integer ''2024-01-03'' [''2024-01-01.json'', ''2024-01-02_07.json'']
       = ''2024-01-03.json''
   \<and> entry_filename String_integer ''2024-01-01'' [''2024-01-01.json'', ''2024-01-02_07.json'']
       \<notin> set [''2024-01-01.json'', ''2024-01-02_07.json'']"
proof -
  have safe: "\<forall>f\<in>set [''2024-01-01.json'', ''2024-01-02_07.json''].
      prefix ''2024-01-01'' f \<longrightarrow> suffix_number f < 2 ^ 53 - 1"
    by (simp add: filename_eval)
  have fresh: "entry_filename String_integer ''2024-01-01''
      [''2024-01-01.json'', ''2024-01-02_07.json'']
       \<notin> set [''2024-01-01.json'', ''2024-01-02_07.json'']"
    using entry_filename_spec [OF safe, of String_integer] by (rule conjunct2)
  have "entry_filename String_integer ''2024-01-01'' [''2024-01-01.json'', ''2024-01-02_07.json'']
       = ''2024-01-01_02.json''"
    by (simp add: filename_eval)
  moreover have "entry_filename String_integer ''2024-01-03''
      [''2024-01-01.json'', ''2024-01-02_07.json''] = ''2024-01-03.json''"
    by (simp add: filename_eval)
  moreover have "suffix_number ''2024-01-01.json'' < 2 ^ 53 - 1"
    and "\<not> prefix ''2024-01-01'' ''2024-01-02_07.json''"
    by (simp_all add: filename_eval)
  ultimately show ?thesis using fresh by blast
qed


section \<open>Commit sequence: properties\<close>

lemma await_then_InrE:
  assumes "await_then m f s = (Inr y, s')"
  obtains x s1 where "m s = (Inr x, s1)" and "f x s1 = (Inr y, s')"
  using assms by (auto simp: await_then_def split: prod.splits sum.splits)

lemma await_thenE:
  assumes "await_then m f s = (r, s')"
  obtains (fail) e where "m s = (Inl e, s')" and "r = Inl e"
    | (ok) x s1 where "m s = (Inr x, s1)" and "f x s1 = (r, s')"
  using assms by (auto simp: await_then_def split: prod.splits sum.splits)

lemma on_ui_run: "on_ui g s = (r, s') \<longleftrightarrow> r = Inr () \<and> s' = s\<lparr>ui := g (ui s)\<rparr>"
  by (auto simp: on_ui_def)

lemma settle_run: "settle x s = (r, s') \<longleftrightarrow> r = x \<and> s' = s"
  by (auto simp: settle_def)

lemma resolve_run: "resolve x s = (r, s') \<longleftrightarrow> r = Inr x \<and> s' = s"
  by (auto simp: resolve_def)

lemma reject_run: "reject e s = (r, s') \<longleftrightarrow> r = Inl e \<and> s' = s"
  by (auto simp: reject_def)

lemma apiRequest_eq:
  "apiRequest P token endpoint os s =
     (api_result (fst (fetch P (world s) (api_request token endpoint os))),
      s\<lparr>world := snd (fetch P (world s) (api_request token endpoint os)),
        calls := calls s @ [(api_request token endpoint os,
                            fst (fetch P (world s) (api_request token endpoint os)))]\<rparr>)"
  by (auto simp: apiRequest_def await_then_def do_fetch_def api_result_def settle_def reject_def
      split: prod.splits sum.splits)

lemma apiRequest_run:
  assumes "apiRequest P token endpoint os s = (r, s')"
  obtains fr where "calls s' = calls s @ [(api_request token endpoint os, fr)]"
    and "api_result fr = r" and "ui s' = ui s" and "localStorage s' = localStorage s"
  using assms unfolding apiRequest_eq by auto

lemma sendsD:
  assumes "sends k m" and "m s = (r, s')"
  obtains T where "calls s' = calls s @ T" and "length T \<le> k"
    and "\<forall>c\<in>set T. req_method (fst c) \<noteq> ''PATCH''"
  using assms unfolding sends_def by blast

lemma sends_pure:
  "sends 0 (resolve x)" "sends 0 (reject e)" "sends 0 (settle r)" "sends 0 (on_ui g)"
  by (auto simp: sends_def resolve_def reject_def settle_def on_ui_def)

lemma sends_mono: "sends j m \<Longrightarrow> j \<le> k \<Longrightarrow> sends k m"
  unfolding sends_def by (meson le_trans)

lemma sends_await_then:
  assumes "sends j m" and "\<And>x. sends k (f x)"
  shows "sends (j + k) (await_then m f)"
  unfolding sends_def
proof (intro allI impI)
  fix s r s'
  assume run: "await_then m f s = (r, s')"
  from run show "\<exists>T. calls s' = calls s @ T \<and> length T \<le> j + k
      \<and> (\<forall>c\<in>set T. req_method (fst c) \<noteq> ''PATCH'')"
  proof (cases rule: await_thenE)
    case (fail e)
    from assms(1) fail(1) obtain T where "calls s' = calls s @ T" "length T \<le> j"
      "\<forall>c\<in>set T. req_method (fst c) \<noteq> ''PATCH''" by (rule sendsD)
    then show ?thesis by (intro exI [of _ T]) simp
  next
    case (ok x s1)
    from assms(1) ok(1) obtain T1 where T1: "calls s1 = calls s @ T1" "length T1 \<le> j"
      "\<forall>c\<in>set T1. req_method (fst c) \<noteq> ''PATCH''" by (rule sendsD)
    from assms(2) ok(2) obtain T2 where T2: "calls s' = calls s1 @ T2" "length T2 \<le> k"
      "\<forall>c\<in>set T2. req_method (fst c) \<noteq> ''PATCH''" by (rule sendsD)
    from T1 T2 show ?thesis by (intro exI [of _ "T1 @ T2"]) auto
  qed
qed

lemma sends_try_catch:
  assumes "sends j m" and "\<And>e. sends k (h e)"
  shows "sends (j + k) (try_catch m h)"
  unfolding sends_def
proof (intro allI impI)
  fix s r s'
  assume run: "try_catch m h s = (r, s')"
  obtain r1 s1 where m: "m s = (r1, s1)" by (cases "m s")
  from assms(1) m obtain T1 where T1: "calls s1 = calls s @ T1" "length T1 \<le> j"
    "\<forall>c\<in>set T1. req_method (fst c) \<noteq> ''PATCH''" by (rule sendsD)
  show "\<exists>T. calls s' = calls s @ T \<and> length T \<le> j + k
      \<and> (\<forall>c\<in>set T. req_method (fst c) \<noteq> ''PATCH'')"
  proof (cases r1)
    case (Inl e)
    with run m have "h e s1 = (r, s')" by (simp add: try_catch_def)
    with assms(2) obtain T2 where T2: "calls s' = calls s1 @ T2" "length T2 \<le> k"
      "\<forall>c\<in>set T2. req_method (fst c) \<noteq> ''PATCH''" by (rule sendsD)
    from T1 T2 show ?thesis by (intro exI [of _ "T1 @ T2"]) auto
  next
    case (Inr x)
    with run m have "s' = s1" by (simp add: try_catch_def)
    with T1 show ?thesis by (intro exI [of _ T1]) simp
  qed
qed

lemma sends_apiRequest:
  assumes "opt_method os \<noteq> Some ''PATCH''"
  shows "sends 1 (apiRequest P token endpoint os)"
  unfolding sends_def
proof (intro allI impI)
  fix s r s'
  assume "apiRequest P token endpoint os s = (r, s')"
  then obtain fr where "calls s' = calls s @ [(api_request token endpoint os, fr)]"
    by (rule apiRequest_run)
  moreover have "req_method (api_request token endpoint os) \<noteq> ''PATCH''"
    using assms by (cases "opt_method os") (auto simp: api_request_def)
  ultimately show "\<exists>T. calls s' = calls s @ T \<and> length T \<le> 1
      \<and> (\<forall>c\<in>set T. req_method (fst c) \<noteq> ''PATCH'')"
    by (intro exI [of _ "[(api_request token endpoint os, fr)]"]) simp
qed

lemma sends_getRef: "sends 1 (getRef P token owner repo branch)"
  unfolding getRef_def
  by (rule sends_mono, (rule sends_await_then sends_apiRequest sends_pure | simp add: no_opts_def)+)

lemma sends_getCommit: "sends 1 (getCommit P token owner repo sha)"
  unfolding getCommit_def by (rule sends_apiRequest) (simp add: no_opts_def)

lemma sends_createBlob: "sends 1 (createBlob P token owner repo c e)"
  unfolding createBlob_def by (rule sends_apiRequest) simp

lemma sends_createTree: "sends 1 (createTree P token owner repo b es)"
  unfolding createTree_def by (rule sends_apiRequest) simp

lemma sends_createCommitObj: "sends 1 (createCommitObj P token owner repo m t p)"
  unfolding createCommitObj_def by (rule sends_apiRequest) simp

lemma sends_create_blobs: "sends (length files) (create_blobs P token owner repo files acc)"
proof (induction files arbitrary: acc)
  case Nil
  show ?case by (simp add: sends_pure)
next
  case (Cons f fs)
  show ?case
    unfolding create_blobs.simps
    by (rule sends_mono, (rule sends_await_then sends_createBlob sends_pure Cons.IH)+, simp)
qed

lemma sends_if: "sends k a \<Longrightarrow> sends k b \<Longrightarrow> sends k (if c then a else b)"
  by simp

lemma sends_getFileContent: "sends 1 (getFileContent P token owner repo p branch)"
  unfolding getFileContent_def
  by (rule sends_mono,
      (rule sends_try_catch sends_await_then sends_apiRequest sends_if sends_pure
        | simp add: no_opts_def)+)

lemma await_then_assoc:
  "await_then (await_then m f) g = await_then m (\<lambda>x. await_then (f x) g)"
  by (auto simp: await_then_def fun_eq_iff split: prod.splits sum.splits)

lemma await_then_resolve: "await_then (resolve x) f = f x"
  by (simp add: await_then_def resolve_def fun_eq_iff)

lemma commitFiles_split:
  "commitFiles P token owner repo msg files onProgress =
     await_then (commit_prepare P token owner repo msg files (progress_of onProgress))
       (\<lambda>(newCommit, commitSha).
          await_then (updateRef P token owner repo ''main'' commitSha) (\<lambda>_.
          await_then (on_ui (progress_of onProgress ''done'' ''Committed successfully!'')) (\<lambda>_.
          resolve newCommit)))"
  by (simp add: commitFiles_def commit_prepare_def Let_def await_then_assoc await_then_resolve)

lemma sends_commit_prepare:
  "sends (length files + 4) (commit_prepare P token owner repo msg files progress)"
  unfolding commit_prepare_def
  by (rule sends_mono,
      (rule sends_await_then sends_getRef sends_getCommit sends_create_blobs sends_createTree
         sends_createCommitObj sends_pure)+, simp)

lemma getRef_Inr:
  assumes "getRef P token owner repo branch s = (Inr sha, s')"
  obtains fr ref obj where
    "calls s' = calls s @ [(api_request token
        (''/repos/'' @ owner @ ''/'' @ repo @ ''/git/ref/heads/'' @ branch) no_opts, fr)]"
    and "api_result fr = Inr ref" and "get_prop ref ''object'' = Inr obj"
    and "get_prop obj ''sha'' = Inr sha"
proof -
  from assms obtain ref s1 where a: "apiRequest P token
        (''/repos/'' @ owner @ ''/'' @ repo @ ''/git/ref/heads/'' @ branch) no_opts s = (Inr ref, s1)"
    and b: "await_then (settle (get_prop ref ''object'')) (\<lambda>obj. settle (get_prop obj ''sha'')) s1
        = (Inr sha, s')"
    unfolding getRef_def by (rule await_then_InrE)
  from b obtain obj s2 where c: "settle (get_prop ref ''object'') s1 = (Inr obj, s2)"
    and d: "settle (get_prop obj ''sha'') s2 = (Inr sha, s')"
    by (rule await_then_InrE)
  from c d have "s' = s1" "get_prop ref ''object'' = Inr obj" "get_prop obj ''sha'' = Inr sha"
    by (simp_all add: settle_run)
  moreover from a obtain fr where "calls s1 = calls s @ [(api_request token
        (''/repos/'' @ owner @ ''/'' @ repo @ ''/git/ref/heads/'' @ branch) no_opts, fr)]"
    "api_result fr = Inr ref" by (rule apiRequest_run)
  ultimately show thesis using that by simp
qed

lemma create_blobs_Inr:
  assumes "create_blobs P token owner repo files acc s = (Inr entries, s')"
  shows "\<exists>T blobs shas. calls s' = calls s @ T
      \<and> map fst T = map (blob_request P token owner repo) files
      \<and> map (\<lambda>c. api_result (snd c)) T = map Inr blobs
      \<and> map (\<lambda>b. get_prop b ''sha'') blobs = map Inr shas
      \<and> entries = acc @ map2 tree_entry (map path files) shas"
  using assms
proof (induction files arbitrary: acc s)
  case Nil
  then show ?case by (simp add: resolve_run)
next
  case (Cons f fs)
  from Cons.prems obtain blob s1 where
    a: "createBlob P token owner repo (content f) (Some (encoding_or_utf8 f)) s = (Inr blob, s1)"
    and b: "await_then (settle (get_prop blob ''sha''))
         (\<lambda>sha. create_blobs P token owner repo fs (acc @ [tree_entry (path f) sha])) s1
        = (Inr entries, s')"
    unfolding create_blobs.simps by (rule await_then_InrE)
  from b obtain sha s2 where c: "settle (get_prop blob ''sha'') s1 = (Inr sha, s2)"
    and d: "create_blobs P token owner repo fs (acc @ [tree_entry (path f) sha]) s2
        = (Inr entries, s')"
    by (rule await_then_InrE)
  from c have s2: "s2 = s1" and sha: "get_prop blob ''sha'' = Inr sha"
    by (simp_all add: settle_run)
  from a obtain fr where fr: "calls s1 = calls s @ [(blob_request P token owner repo f, fr)]"
    "api_result fr = Inr blob"
    unfolding createBlob_def blob_request_def by (rule apiRequest_run) simp
  from Cons.IH [OF d] obtain T blobs shas where IH: "calls s' = calls s2 @ T"
    "map fst T = map (blob_request P token owner repo) fs"
    "map (\<lambda>c. api_result (snd c)) T = map Inr blobs"
    "map (\<lambda>b. get_prop b ''sha'') blobs = map Inr shas"
    "entries = (acc @ [tree_entry (path f) sha]) @ map2 tree_entry (map path fs) shas"
    by blast
  show ?case
    by (rule exI [of _ "(blob_request P token owner repo f, fr) # T"],
        rule exI [of _ "blob # blobs"], rule exI [of _ "sha # shas"])
      (use IH fr s2 sha in simp)
qed

lemma commit_prepare_Inr:
  assumes "commit_prepare P token owner repo msg files progress s = (Inr (newCommit, commitSha), s')"
  shows "\<exists>T ref obj headSha headCommit tree baseTreeSha blobs shas newTree treeSha.
      calls s' = calls s @ T
      \<and> map fst T = butlast (six_step_requests P token owner repo msg files headSha baseTreeSha
            shas treeSha commitSha)
      \<and> map (\<lambda>c. api_result (snd c)) T = map Inr ([ref, headCommit] @ blobs @ [newTree, newCommit])
      \<and> get_prop ref ''object'' = Inr obj \<and> get_prop obj ''sha'' = Inr headSha
      \<and> get_prop headCommit ''tree'' = Inr tree \<and> get_prop tree ''sha'' = Inr baseTreeSha
      \<and> map (\<lambda>b. get_prop b ''sha'') blobs = map Inr shas
      \<and> get_prop newTree ''sha'' = Inr treeSha
      \<and> get_prop newCommit ''sha'' = Inr commitSha"
proof -
  note run = on_ui_run settle_run resolve_run
  from assms obtain u1 s1 headSha s2 headCommit s3 tree s4 baseTreeSha s5 u2 s6 treeEntries s7
      u3 s8 newTree s9 u4 s10 treeSha s11 newCommit' s12 u5 s13 commitSha' s14 where
    1: "on_ui (progress ''ref'' ''Getting current branch...'') s = (Inr u1, s1)" and
    2: "getRef P token owner repo ''main'' s1 = (Inr headSha, s2)" and
    3: "getCommit P token owner repo headSha s2 = (Inr headCommit, s3)" and
    4: "settle (get_prop headCommit ''tree'') s3 = (Inr tree, s4)" and
    5: "settle (get_prop tree ''sha'') s4 = (Inr baseTreeSha, s5)" and
    6: "on_ui (progress ''blobs'' (''Creating '' @ decimal (length files) @ '' file(s)...'')) s5
          = (Inr u2, s6)" and
    7: "create_blobs P token owner repo files [] s6 = (Inr treeEntries, s7)" and
    8: "on_ui (progress ''tree'' ''Building commit tree...'') s7 = (Inr u3, s8)" and
    9: "createTree P token owner repo baseTreeSha treeEntries s8 = (Inr newTree, s9)" and
    10: "on_ui (progress ''commit'' ''Creating commit...'') s9 = (Inr u4, s10)" and
    11: "settle (get_prop newTree ''sha'') s10 = (Inr treeSha, s11)" and
    12: "createCommitObj P token owner repo msg treeSha headSha s11 = (Inr newCommit', s12)" and
    13: "on_ui (progress ''update'' ''Updating branch...'') s12 = (Inr u5, s13)" and
    14: "settle (get_prop newCommit' ''sha'') s13 = (Inr commitSha', s14)" and
    15: "resolve (newCommit', commitSha') s14 = (Inr (newCommit, commitSha), s')"
    unfolding commit_prepare_def by (elim await_then_InrE)
  from 15 have eq: "newCommit' = newCommit" "commitSha' = commitSha" "s' = s14"
    by (simp_all add: run)
  from 1 have c1: "calls s1 = calls s" by (auto simp: run)
  from 2 obtain fr2 ref obj where c2: "calls s2 = calls s1 @ [(api_request token
        (''/repos/'' @ owner @ ''/'' @ repo @ ''/git/ref/heads/'' @ ''main'') no_opts, fr2)]"
    and r2: "api_result fr2 = Inr ref" "get_prop ref ''object'' = Inr obj"
      "get_prop obj ''sha'' = Inr headSha"
    by (rule getRef_Inr)
  from 3 obtain fr3 where c3: "calls s3 = calls s2 @ [(api_request token
        (''/repos/'' @ owner @ ''/'' @ repo @ ''/git/commits/'' @ template P headSha) no_opts, fr3)]"
    and r3: "api_result fr3 = Inr headCommit"
    unfolding getCommit_def by (rule apiRequest_run)
  from 4 5 6 have c6: "calls s6 = calls s3" and p4: "get_prop headCommit ''tree'' = Inr tree"
    "get_prop tree ''sha'' = Inr baseTreeSha"
    by (auto simp: run)
  from create_blobs_Inr [OF 7] obtain Tb blobs shas where c7: "calls s7 = calls s6 @ Tb"
    and r7: "map fst Tb = map (blob_request P token owner repo) files"
      "map (\<lambda>c. api_result (snd c)) Tb = map Inr blobs"
      "map (\<lambda>b. get_prop b ''sha'') blobs = map Inr shas"
      "treeEntries = [] @ map2 tree_entry (map path files) shas"
    by blast
  from 8 have c8: "calls s8 = calls s7" by (auto simp: run)
  from 9 obtain fr9 where c9: "calls s9 = calls s8 @ [(api_request token
        (''/repos/'' @ owner @ ''/'' @ repo @ ''/git/trees'')
          \<lparr>opt_method = Some ''POST'',
           opt_body = Some (JSON_stringify P
             (Obj [(''base_tree'', baseTreeSha), (''tree'', Arr treeEntries)]) 0)\<rparr>, fr9)]"
    and r9: "api_result fr9 = Inr newTree"
    unfolding createTree_def by (rule apiRequest_run)
  from 10 11 have c11: "calls s11 = calls s9" and p11: "get_prop newTree ''sha'' = Inr treeSha"
    by (auto simp: run)
  from 12 obtain fr12 where c12: "calls s12 = calls s11 @ [(api_request token
        (''/repos/'' @ owner @ ''/'' @ repo @ ''/git/commits'')
          \<lparr>opt_method = Some ''POST'',
           opt_body = Some (JSON_stringify P
             (Obj [(''message'', Str msg), (''tree'', treeSha), (''parents'', Arr [headSha])]) 0)\<rparr>,
        fr12)]"
    and r12: "api_result fr12 = Inr newCommit'"
    unfolding createCommitObj_def by (rule apiRequest_run)
  from 13 14 have c14: "calls s14 = calls s12"
    and p14: "get_prop newCommit' ''sha'' = Inr commitSha'"
    by (auto simp: run)
  let ?T = "[(api_request token
        (''/repos/'' @ owner @ ''/'' @ repo @ ''/git/ref/heads/'' @ ''main'') no_opts, fr2),
      (api_request token
        (''/repos/'' @ owner @ ''/'' @ repo @ ''/git/commits/'' @ template P headSha) no_opts, fr3)]
      @ Tb @
      [(api_request token (''/repos/'' @ owner @ ''/'' @ repo @ ''/git/trees'')
          \<lparr>opt_method = Some ''POST'',
           opt_body = Some (JSON_stringify P
             (Obj [(''base_tree'', baseTreeSha), (''tree'', Arr treeEntries)]) 0)\<rparr>, fr9),
       (api_request token (''/repos/'' @ owner @ ''/'' @ repo @ ''/git/commits'')
          \<lparr>opt_method = Some ''POST'',
           opt_body = Some (JSON_stringify P
             (Obj [(''message'', Str msg), (''tree'', treeSha), (''parents'', Arr [headSha])]) 0)\<rparr>,
        fr12)]"
  have calls: "calls s' = calls s @ ?T"
    by (simp add: eq c14 c12 c11 c9 c8 c7 c6 c3 c2 c1)
  have reqs: "map fst ?T = butlast (six_step_requests P token owner repo msg files headSha
      baseTreeSha shas treeSha commitSha)"
    using r7 by (simp add: six_step_requests_def butlast_append)
  have results: "map (\<lambda>c. api_result (snd c)) ?T
      = map Inr ([ref, headCommit] @ blobs @ [newTree, newCommit])"
    using r2 r3 r7 r9 r12 eq by simp
  from calls reqs results r2 p4 r7 p11 p14 eq show ?thesis by blast
qed




lemma commit_prepare_complete:
  assumes "commit_prepare P token owner repo msg files progress s = (Inr pr, s')"
  obtains T where "calls s' = calls s @ T" and "no_patch T" and "all_ok T"
    and "length T = length files + 4"
proof -
  obtain nc commitSha where pr: "pr = (nc, commitSha)" by (cases pr)
  from commit_prepare_Inr [OF assms [unfolded pr]]
  obtain T headSha baseTreeSha shas treeSha ref headCommit blobs newTree where
    T: "calls s' = calls s @ T"
    "map fst T = butlast (six_step_requests P token owner repo msg files headSha baseTreeSha
            shas treeSha commitSha)"
    "map (\<lambda>c. api_result (snd c)) T = map Inr ([ref, headCommit] @ blobs @ [newTree, nc])"
    by blast
  have len: "length T = length files + 4"
    using arg_cong [OF T(2), of length] by (simp add: six_step_requests_def)
  from sends_commit_prepare [of files P token owner repo msg progress] assms
  obtain T' where "calls s' = calls s @ T'" "\<forall>c\<in>set T'. req_method (fst c) \<noteq> ''PATCH''"
    by (rule sendsD)
  with T(1) have np: "no_patch T" by (simp add: no_patch_def)
  have "all_ok T"
    unfolding all_ok_def
  proof
    fix c assume "c \<in> set T"
    then have "api_result (snd c) \<in> set (map (\<lambda>c. api_result (snd c)) T)" by simp
    then show "\<exists>v. api_result (snd c) = Inr v" unfolding T(3) by auto
  qed
  with T(1) np len show thesis by (intro that)
qed

lemma commitFiles_run:
  assumes "commitFiles P token owner repo msg files onProgress s = (r, s')"
  shows "\<exists>T. calls s' = calls s @ T \<and> commit_outcome (length files) T r"
  using assms unfolding commitFiles_split
proof (cases rule: await_thenE)
  case (fail e)
  from sends_commit_prepare fail(1) obtain T where "calls s' = calls s @ T"
    "length T \<le> length files + 4" "\<forall>c\<in>set T. req_method (fst c) \<noteq> ''PATCH''"
    by (rule sendsD)
  with fail(2) show ?thesis
    by (intro exI [of _ T]) (simp add: commit_outcome_def no_patch_def)
next
  case (ok pr s1)
  from ok(1) obtain T0 where T0: "calls s1 = calls s @ T0" "no_patch T0" "all_ok T0"
    "length T0 = length files + 4"
    by (rule commit_prepare_complete)
  obtain nc commitSha where pr: "pr = (nc, commitSha)" by (cases pr)
  from ok(2) have fin: "await_then (updateRef P token owner repo ''main'' commitSha) (\<lambda>_.
          await_then (on_ui (progress_of onProgress ''done'' ''Committed successfully!'')) (\<lambda>_.
          resolve nc)) s1 = (r, s')"
    by (simp add: pr)
  let ?rq = "api_request token (''/repos/'' @ owner @ ''/'' @ repo @ ''/git/refs/heads/'' @ ''main'')
       \<lparr>opt_method = Some ''PATCH'',
        opt_body = Some (JSON_stringify P (Obj [(''sha'', commitSha)]) 0)\<rparr>"
  have patch: "req_method ?rq = ''PATCH''" by (simp add: api_request_def)
  from fin show ?thesis
  proof (cases rule: await_thenE)
    case (fail e)
    from fail(1) obtain fr where "calls s' = calls s1 @ [(?rq, fr)]" "api_result fr = Inl e"
      unfolding updateRef_def by (rule apiRequest_run)
    with T0 patch fail(2) show ?thesis
      by (intro exI [of _ "T0 @ [(?rq, fr)]"]) (auto simp: commit_outcome_def)
  next
    case (ok upd s2)
    from ok(1) obtain fr where fr: "calls s2 = calls s1 @ [(?rq, fr)]" "api_result fr = Inr upd"
      unfolding updateRef_def by (rule apiRequest_run)
    from ok(2) have "r = Inr nc" "calls s' = calls s2"
      by (auto elim!: await_thenE simp: on_ui_run resolve_run)
    with T0 patch fr show ?thesis
      by (intro exI [of _ "T0 @ [(?rq, fr)]"]) (auto simp: commit_outcome_def)
  qed
qed


section \<open>Submission: runs\<close>

lemma getFileContent_run:
  assumes "getFileContent P token owner repo p ''main'' s = (r, s')"
  obtains fr where "calls s' = calls s @ [(contents_request P token owner repo p, fr)]"
    and "r = file_content_result P fr" and "ui s' = ui s"
proof -
  let ?ep = "''/repos/'' @ owner @ ''/'' @ repo @ ''/contents/'' @ encodeURIComponent P p
      @ ''?ref='' @ ''main''"
  let ?fr = "fst (fetch P (world s) (api_request token ?ep no_opts))"
  have "calls s' = calls s @ [(contents_request P token owner repo p, ?fr)]
      \<and> r = file_content_result P ?fr \<and> ui s' = ui s"
    using assms
    unfolding getFileContent_def try_catch_def await_then_def apiRequest_eq settle_def
      resolve_def reject_def file_content_result_def contents_request_def
    by (auto split: sum.splits if_splits)
  then show thesis using that by blast
qed

lemma compress_photos_sends: "sends 0 (compress_photos P e d n fs i files ips)"
proof (induction fs arbitrary: i files ips)
  case Nil
  show ?case by (simp add: sends_pure)
next
  case (Cons f fs)
  show ?case
    unfolding compress_photos.simps Let_def
    by (rule sends_mono, (rule sends_await_then sends_pure Cons.IH)+, simp)
qed

lemma compress_photos_Inr:
  assumes "compress_photos P e d n fs i files ips s = (Inr (files', ips'), s')"
  shows "length files' = length files + length fs
      \<and> (\<forall>f\<in>set files'. f \<in> set files \<or> prefix ''images/'' (path f))"
  using assms
proof (induction fs arbitrary: i files ips s)
  case Nil
  then show ?case by (simp add: resolve_run)
next
  case (Cons f fs)
  from Cons.prems obtain b s1 u s2 where
    "compress_photos P e d n fs (i + 1)
       (files @ [\<lparr>path = ''images/'' @ e @ ''/'' @ d @ ''_'' @ padStart0 3 (decimal (i + 1)) @ ''.jpg'',
                  content = b, encoding = Some ''base64''\<rparr>])
       (ips @ [''images/'' @ e @ ''/'' @ d @ ''_'' @ padStart0 3 (decimal (i + 1)) @ ''.jpg'']) s2
      = (Inr (files', ips'), s')"
    unfolding compress_photos.simps Let_def by (elim await_then_InrE)
  from Cons.IH [OF this] show ?case by auto
qed

lemma onSubmit_try_split:
  "onSubmit_try P u0 token owner repo =
     await_then (submit_prepare P u0 token owner repo) (\<lambda>batch.
     await_then
       (commitFiles P token owner repo
          (''journal: '' @ experiment_select u0 @ '' entry '' @ entry_date u0) batch
          (Some (\<lambda>step msg. add_progress msg ''active''))) (\<lambda>_.
     await_then (on_ui (add_progress ''Entry submitted successfully!'' ''done'')) (\<lambda>_.
     on_ui resetForm)))"
  by (simp only: onSubmit_try_def submit_prepare_def Let_def await_then_assoc split_def)

lemma submission_files_Inr:
  assumes "submission_files P u files imagePaths fetched = Inr batch"
  obtains entries where
    "get_prop (existing_index P fetched) ''entries'' = Inr (Arr (map Str entries))"
    and "batch = files @
       [\<lparr>path = entry_path (experiment_select u)
            (entry_filename (String_big P) (entry_date u) entries),
         content = JSON_stringify P (entry_document P u imagePaths) 2, encoding = None\<rparr>,
        \<lparr>path = index_path (experiment_select u),
         content = JSON_stringify P
           (with_array ''entries''
              (map Str (sort (entries @ [entry_filename (String_big P) (entry_date u) entries])))
              (existing_index P fetched)) 2,
         encoding = None\<rparr>]"
proof -
  from assms obtain entriesV entries where
    a: "get_prop (existing_index P fetched) ''entries'' = Inr entriesV"
    and b: "string_elements entriesV = Inr entries"
    and c: "batch = files @
       [\<lparr>path = entry_path (experiment_select u)
            (entry_filename (String_big P) (entry_date u) entries),
         content = JSON_stringify P (entry_document P u imagePaths) 2, encoding = None\<rparr>,
        \<lparr>path = index_path (experiment_select u),
         content = JSON_stringify P
           (with_array ''entries''
              (map Str (sort (entries @ [entry_filename (String_big P) (entry_date u) entries])))
              (existing_index P fetched)) 2,
         encoding = None\<rparr>]"
    by (auto simp: submission_files_def Let_def split: sum.splits)
  from b obtain xs where xs: "entriesV = Arr xs" "those (map str_of xs) = Some entries"
    by (auto simp: string_elements_def split: jsval.splits option.splits)
  have "xs = map Str entries" using xs(2)
  proof (induction xs arbitrary: entries)
    case Nil
    then show ?case by simp
  next
    case (Cons x xs)
    then show ?case
      by (auto simp: str_of_def split: option.splits jsval.splits)
  qed
  with a xs(1) c show thesis using that by simp
qed

lemma submit_prepare_sends: "sends 1 (submit_prepare P u0 token owner repo)"
  unfolding submit_prepare_def
  by (rule sends_mono,
      (rule sends_await_then sends_if compress_photos_sends sends_getFileContent sends_pure
         | simp add: case_prod_beta)+)

lemma contents_request_GET: "req_method (contents_request P token owner repo p) = ''GET''"
  by (simp add: contents_request_def api_request_def no_opts_def)

lemma submit_prepare_Inr:
  assumes "submit_prepare P u0 token owner repo s = (Inr batch, s')"
  obtains files ips fr fetched where
    "calls s' = calls s @
       [(contents_request P token owner repo (index_path (experiment_select u0)), fr)]"
    and "file_content_result P fr = Inr fetched"
    and "submission_files P u0 files ips fetched = Inr batch"
    and "length files = length (selectedFiles u0)"
    and "\<forall>f\<in>set files. prefix ''images/'' (path f)"
proof -
  from assms obtain fi s1 where
    a: "(if length (selectedFiles u0) > 0 then
           await_then (on_ui (add_progress ''Compressing photos...'' ''active'')) (\<lambda>_.
             compress_photos P (experiment_select u0) (entry_date u0) (length (selectedFiles u0))
               (selectedFiles u0) 0 [] [])
         else resolve ([], [])) s = (Inr fi, s1)"
    and b: "(case fi of (files, imagePaths) \<Rightarrow>
      await_then (on_ui (add_progress ''Checking existing entries...'' ''active'')) (\<lambda>_.
      await_then (getFileContent P token owner repo (index_path (experiment_select u0)) ''main'')
        (\<lambda>fetched.
      settle (submission_files P u0 files imagePaths fetched)))) s1 = (Inr batch, s')"
    unfolding submit_prepare_def by (rule await_then_InrE)
  obtain files ips where fi: "fi = (files, ips)" by (cases fi)
  have c1: "calls s1 = calls s"
    using sendsD [OF sends_if [OF sends_mono [OF sends_await_then [OF sends_pure(4)
      compress_photos_sends]] sends_pure(1)] a]
    by (metis (no_types, lifting) add_0 le_zero_eq length_0_conv self_append_conv order_refl)
  have files: "length files = length (selectedFiles u0) \<and> (\<forall>f\<in>set files. prefix ''images/'' (path f))"
  proof (cases "length (selectedFiles u0) > 0")
    case True
    with a fi obtain x sx where
      "compress_photos P (experiment_select u0) (entry_date u0) (length (selectedFiles u0))
               (selectedFiles u0) 0 [] [] sx = (Inr (files, ips), s1)"
      by (auto elim!: await_then_InrE)
    from compress_photos_Inr [OF this] show ?thesis by simp
  next
    case False
    with a fi show ?thesis by (simp add: resolve_run)
  qed
  from b fi obtain u sa fetched sb where
    "on_ui (add_progress ''Checking existing entries...'' ''active'') s1 = (Inr u, sa)"
    and g: "getFileContent P token owner repo (index_path (experiment_select u0)) ''main'' sa
        = (Inr fetched, sb)"
    and sf: "settle (submission_files P u0 files ips fetched) sb = (Inr batch, s')"
    by (auto elim!: await_then_InrE)
  then have c2: "calls sa = calls s1" and c3: "s' = sb"
    and sf': "submission_files P u0 files ips fetched = Inr batch"
    by (auto simp: on_ui_run settle_run)
  from g obtain fr where
    "calls sb = calls sa @
       [(contents_request P token owner repo (index_path (experiment_select u0)), fr)]"
    "Inr fetched = file_content_result P fr"
    by (rule getFileContent_run)
  with c1 c2 c3 sf' files show thesis by (intro that [of fr fetched files ips]) simp_all
qed

lemma submission_files_length:
  "submission_files P u files ips fetched = Inr batch \<Longrightarrow> length batch = length files + 2"
  by (erule submission_files_Inr) simp

lemma onSubmit_try_run:
  assumes "onSubmit_try P u0 token owner repo s = (r, s')"
  shows "\<exists>T. calls s' = calls s @ T \<and> submit_outcome (length (selectedFiles u0)) T r
      \<and> (\<forall>x. r = Inr x \<longrightarrow>
            last (submit_progress (ui s')) = Step ''done'' ''Entry submitted successfully!'')"
  using assms unfolding onSubmit_try_split
proof (cases rule: await_thenE)
  case (fail e)
  from submit_prepare_sends fail(1) obtain T where "calls s' = calls s @ T" "length T \<le> 1"
    "\<forall>c\<in>set T. req_method (fst c) \<noteq> ''PATCH''" by (rule sendsD)
  with fail(2) show ?thesis
    by (intro exI [of _ T]) (simp add: submit_outcome_def no_patch_def)
next
  case (ok batch s1)
  let ?k = "length (selectedFiles u0)"
  from ok(1) obtain files ips fr fetched where
    c1: "calls s1 = calls s @
       [(contents_request P token owner repo (index_path (experiment_select u0)), fr)]"
    and sf: "submission_files P u0 files ips fetched = Inr batch"
    and len: "length files = ?k"
    by (rule submit_prepare_Inr)
  let ?c0 = "(contents_request P token owner repo (index_path (experiment_select u0)), fr)"
  from sf len have n: "length batch = ?k + 2" by (simp add: submission_files_length)
  have np0: "no_patch [?c0]" by (simp add: no_patch_def contents_request_GET)
  from ok(2) show ?thesis
  proof (cases rule: await_thenE)
    case (fail e)
    from commitFiles_run [OF fail(1)] obtain T1 where T1: "calls s' = calls s1 @ T1"
      "commit_outcome (length batch) T1 (Inl e :: js_error + 'b jsval)" by blast
    from T1(2) consider (before) "no_patch T1" "length T1 \<le> ?k + 6"
      | (update) T0 rq fr' where "T1 = T0 @ [(rq, fr')]" "req_method rq = ''PATCH''"
          "api_result fr' = Inl e" "no_patch T0" "all_ok T0" "length T0 = ?k + 6"
      by (auto simp: commit_outcome_def n)
    then show ?thesis
    proof cases
      case before
      with np0 T1(1) c1 fail(2) show ?thesis
        by (intro exI [of _ "?c0 # T1"]) (simp add: submit_outcome_def no_patch_def)
    next
      case update
      with np0 T1(1) c1 fail(2) show ?thesis
        by (intro exI [of _ "?c0 # T1"]) (auto simp: submit_outcome_def no_patch_def)
    qed
  next
    case (ok nc s2)
    from commitFiles_run [OF ok(1)] obtain T1 where T1: "calls s2 = calls s1 @ T1"
      "commit_outcome (length batch) T1 (Inr nc)" by blast
    from T1(2) obtain T0 rq fr' upd where T0: "T1 = T0 @ [(rq, fr')]" "req_method rq = ''PATCH''"
          "api_result fr' = Inr upd" "no_patch T0" "all_ok T0" "length T0 = ?k + 6"
      by (auto simp: commit_outcome_def n)
    from ok(2) have fin: "r = Inr ()" "calls s' = calls s2"
      "last (submit_progress (ui s')) = Step ''done'' ''Entry submitted successfully!''"
      by (auto elim!: await_thenE simp: on_ui_run add_progress_def addProgress_def resetForm_def)
    with np0 T1(1) c1 T0 show ?thesis
      by (intro exI [of _ "?c0 # T1"]) (auto simp: submit_outcome_def no_patch_def)
  qed
qed

lemma onSubmit_run:
  assumes valid: "isConfigured (localStorage s)" "experiment_select (ui s) \<noteq> []"
      "entry_date (ui s) \<noteq> []"
    and run: "onSubmit P s = (q, s')"
  shows "q = Inr () \<and> \<not> submit_disabled (ui s')
      \<and> (\<exists>T r. calls s' = calls s @ T
            \<and> submit_outcome (length (selectedFiles (ui s))) T (r :: js_error + unit)
            \<and> (case r of
                  Inl e \<Rightarrow> last (submit_progress (ui s')) = Step ''error'' (''Error: '' @ message e)
                | Inr _ \<Rightarrow> last (submit_progress (ui s'))
                    = Step ''done'' ''Entry submitted successfully!''))"
proof -
  let ?s0 = "s\<lparr>ui := (ui s)\<lparr>submit_disabled := True, submit_text := ''Submitting...'',
      submit_progress := []\<rparr>\<rparr>"
  let ?blk = "onSubmit_try P (ui s) (getToken (localStorage s)) (getOwner (localStorage s))
      (getRepo (localStorage s))"
  obtain r s1 where tr: "?blk ?s0 = (r, s1)" by (cases "?blk ?s0")
  from onSubmit_try_run [OF tr] obtain T where T: "calls s1 = calls ?s0 @ T"
    "submit_outcome (length (selectedFiles (ui s))) T r"
    "\<forall>x. r = Inr x \<longrightarrow>
        last (submit_progress (ui s1)) = Step ''done'' ''Entry submitted successfully!''"
    by blast
  show ?thesis
  proof (cases r)
    case (Inl e)
    with run valid tr have "q = Inr ()"
      "s' = s1\<lparr>ui := (add_progress (''Error: '' @ message e) ''error'' (ui s1))
          \<lparr>submit_disabled := False, submit_text := ''Submit Entry''\<rparr>\<rparr>"
      by (simp_all add: onSubmit_def await_then_def try_catch_def on_ui_def)
    with T Inl show ?thesis
      by (intro conjI exI [of _ T] exI [of _ r]) (simp_all add: add_progress_def addProgress_def)
  next
    case (Inr x)
    with run valid tr have "q = Inr ()"
      "s' = s1\<lparr>ui := (ui s1)\<lparr>submit_disabled := False, submit_text := ''Submit Entry''\<rparr>\<rparr>"
      by (simp_all add: onSubmit_def await_then_def try_catch_def on_ui_def)
    with T Inr show ?thesis
      by (intro conjI exI [of _ T] exI [of _ r]) simp_all
  qed
qed

lemmas run_eval =
  onSubmit_def onSubmit_try_def commitFiles_def getRef_def getCommit_def createBlob_def
  createTree_def createCommitObj_def updateRef_def getFileContent_def apiRequest_def
  do_fetch_def api_request_def await_then_def try_catch_def on_ui_def settle_def resolve_def
  reject_def progress_of_def add_progress_def addProgress_def showError_def resetForm_def
  compressImage_def compressImage_dimensions_def MAX_IMAGE_DIMENSION_def Math_round_div_def
  submission_files_def existing_index_def entry_document_def measurement_def index_path_def
  entry_path_def string_elements_def str_of_def with_array_def obj_set_def truthy_def
  get_prop_def template_def encoding_or_utf8_def tree_entry_def replace_newlines_def
  isConfigured_def str_and_def getToken_def getOwner_def getRepo_def getItem_or_def
  STORAGE_KEY_def OWNER_KEY_def REPO_KEY_def API_def headers_def no_opts_def
  sample_platform_def sample_fetch_def sample_json_def sample_document_def sample_page_def
  sample_state_def
  filename_eval Let_def


section \<open>Claims on the commit sequence and the submission\<close>



text \<open>
  C2: \<open>commitFiles\<close> sends the update of the ref at most once, as its last request, and
  only after the reads, every blob, the tree and the commit were each answered with a
  value (\<open>commit_outcome\<close>: a run that rejects has either sent no update at all, within
  the requests of the steps before it, or the update is the request that failed); nothing
  is sent again. In \<open>onSubmit\<close> the error the \<^verbatim>\<open>try\<close> block rejects with (in particular
  the one \<open>commitFiles\<close> rejects with) is shown as the last progress line,
  \<^verbatim>\<open>Error: \<close> followed by its message, the form is enabled again, and no request
  follows.
\<close>

theorem commit_failure:
  "(commitFiles P token owner repo msg files onProgress s = (r, s') \<longrightarrow>
      (\<exists>T. calls s' = calls s @ T \<and> commit_outcome (length files) T r))
   \<and> (isConfigured (localStorage t) \<and> experiment_select (ui t) \<noteq> [] \<and> entry_date (ui t) \<noteq> []
        \<and> onSubmit P t = (q, t') \<longrightarrow>
      q = Inr () \<and> \<not> submit_disabled (ui t')
      \<and> (\<exists>T r. calls t' = calls t @ T
            \<and> submit_outcome (length (selectedFiles (ui t))) T (r :: js_error + unit)
            \<and> (case r of
                  Inl e \<Rightarrow> last (submit_progress (ui t')) = Step ''error'' (''Error: '' @ message e)
                | Inr _ \<Rightarrow> last (submit_progress (ui t'))
                    = Step ''done'' ''Entry submitted successfully!''))
      \<and> (\<forall>batch s1 e s2.
            submit_prepare P (ui t) (getToken (localStorage t)) (getOwner (localStorage t))
              (getRepo (localStorage t))
              (t\<lparr>ui := (ui t)\<lparr>submit_disabled := True, submit_text := ''Submitting...'',
                    submit_progress := []\<rparr>\<rparr>) = (Inr batch, s1)
            \<and> commitFiles P (getToken (localStorage t)) (getOwner (localStorage t))
                (getRepo (localStorage t))
                (''journal: '' @ experiment_select (ui t) @ '' entry '' @ entry_date (ui t)) batch
                (Some (\<lambda>step msg. add_progress msg ''active'')) s1 = (Inl e, s2)
            \<longrightarrow> calls t' = calls s2
              \<and> last (submit_progress (ui t')) = Step ''error'' (''Error: '' @ message e)))"
proof (intro conjI impI allI)
  assume "commitFiles P token owner repo msg files onProgress s = (r, s')"
  then show "\<exists>T. calls s' = calls s @ T \<and> commit_outcome (length files) T r"
    by (rule commitFiles_run)
next
  assume a: "isConfigured (localStorage t) \<and> experiment_select (ui t) \<noteq> []
      \<and> entry_date (ui t) \<noteq> [] \<and> onSubmit P t = (q, t')"
  then have run: "q = Inr () \<and> \<not> submit_disabled (ui t')
      \<and> (\<exists>T r. calls t' = calls t @ T
            \<and> submit_outcome (length (selectedFiles (ui t))) T (r :: js_error + unit)
            \<and> (case r of
                  Inl e \<Rightarrow> last (submit_progress (ui t')) = Step ''error'' (''Error: '' @ message e)
                | Inr _ \<Rightarrow> last (submit_progress (ui t'))
                    = Step ''done'' ''Entry submitted successfully!''))"
    using onSubmit_run [of t P q t'] by blast
  from run show "q = Inr ()" by simp
  from run show "\<not> submit_disabled (ui t')" by simp
  from run show "\<exists>T r. calls t' = calls t @ T
            \<and> submit_outcome (length (selectedFiles (ui t))) T (r :: js_error + unit)
            \<and> (case r of
                  Inl e \<Rightarrow> last (submit_progress (ui t')) = Step ''error'' (''Error: '' @ message e)
                | Inr _ \<Rightarrow> last (submit_progress (ui t'))
                    = Step ''done'' ''Entry submitted successfully!'')" by simp
  fix batch s1 e s2
  assume b: "submit_prepare P (ui t) (getToken (localStorage t)) (getOwner (localStorage t))
              (getRepo (localStorage t))
              (t\<lparr>ui := (ui t)\<lparr>submit_disabled := True, submit_text := ''Submitting...'',
                    submit_progress := []\<rparr>\<rparr>) = (Inr batch, s1)
            \<and> commitFiles P (getToken (localStorage t)) (getOwner (localStorage t))
                (getRepo (localStorage t))
                (''journal: '' @ experiment_select (ui t) @ '' entry '' @ entry_date (ui t)) batch
                (Some (\<lambda>step msg. add_progress msg ''active'')) s1 = (Inl e, s2)"
  then have "onSubmit_try P (ui t) (getToken (localStorage t)) (getOwner (localStorage t))
              (getRepo (localStorage t))
              (t\<lparr>ui := (ui t)\<lparr>submit_disabled := True, submit_text := ''Submitting...'',
                    submit_progress := []\<rparr>\<rparr>) = (Inl e, s2)"
    unfolding onSubmit_try_split by (simp add: await_then_def)
  moreover from a have "isConfigured (localStorage t)" "experiment_select (ui t) \<noteq> []"
    "entry_date (ui t) \<noteq> []" "onSubmit P t = (q, t')" by simp_all
  ultimately have "t' = s2\<lparr>ui := (add_progress (''Error: '' @ message e) ''error'' (ui s2))
          \<lparr>submit_disabled := False, submit_text := ''Submit Entry''\<rparr>\<rparr>"
    by (simp add: onSubmit_def await_then_def try_catch_def on_ui_def)
  then show "calls t' = calls s2"
    and "last (submit_progress (ui t')) = Step ''error'' (''Error: '' @ message e)"
    by (simp_all add: add_progress_def addProgress_def)
qed

theorem commit_failure_witness:
  "isConfigured (localStorage (sample_state 3 sample_page))
   \<and> experiment_select (ui (sample_state 3 sample_page)) \<noteq> []
   \<and> entry_date (ui (sample_state 3 sample_page)) \<noteq> []
   \<and> fst (onSubmit sample_platform (sample_state 3 sample_page)) = Inr ()
   \<and> map (\<lambda>c. req_method (fst c)) (calls (snd (onSubmit sample_platform (sample_state 3 sample_page))))
       = [''GET'', ''GET'', ''GET'', ''POST'']
   \<and> last (submit_progress (ui (snd (onSubmit sample_platform (sample_state 3 sample_page)))))
       = Step ''error'' ''Error: Failed to fetch''
   \<and> (\<exists>T r. calls (snd (onSubmit sample_platform (sample_state 3 sample_page)))
              = calls (sample_state 3 sample_page) @ T
         \<and> submit_outcome (length (selectedFiles (ui (sample_state 3 sample_page)))) T
              (r :: js_error + unit))"
proof -
  let ?s = "sample_state 3 sample_page"
  let ?run = "onSubmit sample_platform ?s"
  have valid: "isConfigured (localStorage ?s) \<and> experiment_select (ui ?s) \<noteq> []
      \<and> entry_date (ui ?s) \<noteq> [] \<and> ?run = (fst ?run, snd ?run)"
    by (simp add: run_eval)
  have ev: "fst ?run = Inr ()"
    "map (\<lambda>c. req_method (fst c)) (calls (snd ?run)) = [''GET'', ''GET'', ''GET'', ''POST'']"
    "last (submit_progress (ui (snd ?run))) = Step ''error'' ''Error: Failed to fetch''"
    by (simp_all add: run_eval)
  from commit_failure [THEN conjunct2, rule_format, OF valid]
  have "\<exists>T r. calls (snd ?run) = calls ?s @ T
         \<and> submit_outcome (length (selectedFiles (ui ?s))) T (r :: js_error + unit)"
    by blast
  with valid ev show ?thesis by blast
qed

end
